theory Spec2Isabelle
  imports Complex_Main
begin

section \<open>Errors and the error monad\<close>

text \<open>
  \<^verbatim>\<open>errorQuda\<close> prints its message and aborts the process. In the model every call of it
  is a value \<open>Inl e\<close>; the constructor carries the values the message prints.
  \<open>ZeroDivisor\<close> is not an abort of the source: it marks a quotient whose divisor is zero,
  so that a guard against a zero divisor can be stated as ``this value never occurs''.
\<close>

datatype QudaPrecision = QUDA_HALF_PRECISION | QUDA_SINGLE_PRECISION | QUDA_DOUBLE_PRECISION

datatype error =
    PrecisionsDoNotMatch QudaPrecision QudaPrecision
  | LengthsDoNotMatch nat nat
  | StridesDoNotMatch nat nat
  | AllocationFailed nat
  | CudaError
  | ZeroDivisor

definition bindE :: "error + 'a \<Rightarrow> ('a \<Rightarrow> error + 'b) \<Rightarrow> error + 'b" where
  "bindE m f = (case m of Inl e \<Rightarrow> Inl e | Inr v \<Rightarrow> f v)"

definition is_fatal :: "error + 'a \<Rightarrow> bool" where
  "is_fatal m = (case m of Inl e \<Rightarrow> True | Inr v \<Rightarrow> False)"

section \<open>The reduction buffer manager\<close>

text \<open>
  The statics \<^verbatim>\<open>d_reduce\<close>, \<^verbatim>\<open>h_reduce\<close>, \<^verbatim>\<open>hd_reduce\<close>, \<^verbatim>\<open>reduceEnd\<close> and
  \<^verbatim>\<open>fast_reduce_enabled\<close> of \<^verbatim>\<open>reduce_quda.cu\<close> extend a record of what the process
  sees of its environment: the device properties, the preprocessor condition of the
  zero-copy branch (\<open>LP64\<close>), the macro \<^verbatim>\<open>MAX_MULTI_BLAS_N\<close> (defined outside the sources
  at hand, so a parameter), the environment variable, the device and host memory still
  available with the tables of live allocations, the device alias of a mapped host
  pointer, the live events, whether a CUDA error is pending, and the warnings printed.
  Pointers and event handles are natural numbers, \<open>0\<close> the null pointer. The buffer size
  is computed in \<^verbatim>\<open>int\<close> in the source; here it is a natural number, without overflow.
  The contents of the buffers are not represented, so the \<^verbatim>\<open>memset\<close> of the host buffer
  has no counterpart.
\<close>

record cudaDeviceProp =
  multiProcessorCount :: nat
  canMapHostMemory :: bool

record runtime =
  deviceProp :: cudaDeviceProp
  LP64 :: bool
  MAX_MULTI_BLAS_N :: nat
  QUDA_ENABLE_FAST_REDUCE :: "string option"
  device_avail :: nat
  host_avail :: nat
  device_live :: "(nat \<times> nat) list"
  host_live :: "(nat \<times> nat) list"
  next_ptr :: nat
  mapped_alias :: "nat \<Rightarrow> nat"
  events :: "nat list"
  next_event :: nat
  cuda_error :: bool
  warnings :: "string list"

record reduce_state = runtime +
  d_reduce :: nat
  h_reduce :: nat
  hd_reduce :: nat
  reduceEnd :: nat
  fast_reduce_enabled :: bool

text \<open>
  Modelled from the spec: \<^verbatim>\<open>device_malloc\<close>, \<^verbatim>\<open>mapped_malloc\<close>, \<^verbatim>\<open>pinned_malloc\<close>,
  \<^verbatim>\<open>device_free\<close> and \<^verbatim>\<open>host_free\<close> are defined outside the sources at hand. An
  allocation that does not fit is fatal (``fails fatally if device allocation fails'');
  one that fits returns a fresh non-null pointer and is recorded with its size. Freeing
  removes the record and gives the bytes back.
\<close>

definition device_malloc :: "nat \<Rightarrow> reduce_state \<Rightarrow> error + (nat \<times> reduce_state)" where
  "device_malloc bytes s =
     (if device_avail s < bytes then Inl (AllocationFailed bytes)
      else Inr (Suc (next_ptr s),
                s\<lparr>device_avail := device_avail s - bytes,
                  device_live := (Suc (next_ptr s), bytes) # device_live s,
                  next_ptr := Suc (next_ptr s)\<rparr>))"

definition host_malloc :: "nat \<Rightarrow> reduce_state \<Rightarrow> error + (nat \<times> reduce_state)" where
  "host_malloc bytes s =
     (if host_avail s < bytes then Inl (AllocationFailed bytes)
      else Inr (Suc (next_ptr s),
                s\<lparr>host_avail := host_avail s - bytes,
                  host_live := (Suc (next_ptr s), bytes) # host_live s,
                  next_ptr := Suc (next_ptr s)\<rparr>))"

definition mapped_malloc :: "nat \<Rightarrow> reduce_state \<Rightarrow> error + (nat \<times> reduce_state)" where
  "mapped_malloc = host_malloc"

definition pinned_malloc :: "nat \<Rightarrow> reduce_state \<Rightarrow> error + (nat \<times> reduce_state)" where
  "pinned_malloc = host_malloc"

definition live_bytes :: "nat \<Rightarrow> (nat \<times> nat) list \<Rightarrow> nat" where
  "live_bytes p l = sum_list (map snd (filter (\<lambda>e. fst e = p) l))"

definition device_free :: "nat \<Rightarrow> reduce_state \<Rightarrow> reduce_state" where
  "device_free p s =
     s\<lparr>device_avail := device_avail s + live_bytes p (device_live s),
       device_live := filter (\<lambda>e. fst e \<noteq> p) (device_live s)\<rparr>"

definition host_free :: "nat \<Rightarrow> reduce_state \<Rightarrow> reduce_state" where
  "host_free p s =
     s\<lparr>host_avail := host_avail s + live_bytes p (host_live s),
       host_live := filter (\<lambda>e. fst e \<noteq> p) (host_live s)\<rparr>"

text \<open>
  The CUDA runtime calls. \<^verbatim>\<open>cudaHostGetDevicePointer\<close> reads the device alias of a mapped
  host pointer. \<^verbatim>\<open>cudaEventCreateWithFlags\<close> stores a fresh handle in \<^verbatim>\<open>reduceEnd\<close>,
  whatever it held before. \<^verbatim>\<open>cudaEventDestroy\<close> retires a handle; the source ignores
  its status, so destroying a handle that is not live changes nothing.
  \<^verbatim>\<open>checkCudaError\<close> is fatal when the runtime has an error pending.
\<close>

definition cudaHostGetDevicePointer :: "nat \<Rightarrow> reduce_state \<Rightarrow> nat" where
  "cudaHostGetDevicePointer h s = mapped_alias s h"

definition cudaEventCreateWithFlags :: "reduce_state \<Rightarrow> reduce_state" where
  "cudaEventCreateWithFlags s =
     s\<lparr>events := Suc (next_event s) # events s,
       next_event := Suc (next_event s),
       reduceEnd := Suc (next_event s)\<rparr>"

definition cudaEventDestroy :: "nat \<Rightarrow> reduce_state \<Rightarrow> reduce_state" where
  "cudaEventDestroy e s = s\<lparr>events := filter (\<lambda>h. h \<noteq> e) (events s)\<rparr>"

definition checkCudaError :: "reduce_state \<Rightarrow> error + reduce_state" where
  "checkCudaError s = (if cuda_error s then Inl CudaError else Inr s)"

definition warningQuda :: "string \<Rightarrow> reduce_state \<Rightarrow> reduce_state" where
  "warningQuda msg s = s\<lparr>warnings := warnings s @ [msg]\<rparr>"

definition sizeof_QudaSumFloat :: nat where
  "sizeof_QudaSumFloat = 8"

definition reduce_bytes :: "reduce_state \<Rightarrow> nat" where
  "reduce_bytes s =
     (let reduce_size = 4 * sizeof_QudaSumFloat;
          max_reduce_blocks = 2 * multiProcessorCount (deviceProp s);
          max_reduce = 2 * max_reduce_blocks * reduce_size;
          max_multi_reduce =
            2 * MAX_MULTI_BLAS_N s * MAX_MULTI_BLAS_N s * max_reduce_blocks * reduce_size
      in if max_reduce > max_multi_reduce then max_reduce else max_multi_reduce)"

definition alloc_d_reduce :: "nat \<Rightarrow> reduce_state \<Rightarrow> error + reduce_state" where
  "alloc_d_reduce bytes s =
     (if d_reduce s = 0
      then bindE (device_malloc bytes s) (\<lambda>(p, s'). Inr (s'\<lparr>d_reduce := p\<rparr>))
      else Inr s)"

definition alloc_h_reduce :: "nat \<Rightarrow> reduce_state \<Rightarrow> error + reduce_state" where
  "alloc_h_reduce bytes s =
     (if h_reduce s = 0
      then (if LP64 s \<and> canMapHostMemory (deviceProp s)
            then bindE (mapped_malloc bytes s)
                   (\<lambda>(p, s'). Inr (s'\<lparr>h_reduce := p, hd_reduce := cudaHostGetDevicePointer p s'\<rparr>))
            else bindE (pinned_malloc bytes s)
                   (\<lambda>(p, s'). Inr (s'\<lparr>h_reduce := p, hd_reduce := d_reduce s'\<rparr>)))
      else Inr s)"

definition read_fast_reduce_env :: "reduce_state \<Rightarrow> reduce_state" where
  "read_fast_reduce_env s =
     (case QUDA_ENABLE_FAST_REDUCE s of
        None \<Rightarrow> s
      | Some fast_reduce_env \<Rightarrow>
          if fast_reduce_env = ''1''
          then (warningQuda ''Experimental fast reductions enabled'' s)\<lparr>fast_reduce_enabled := True\<rparr>
          else s)"

definition initReduce :: "reduce_state \<Rightarrow> error + reduce_state" where
  "initReduce s =
     bindE (alloc_d_reduce (reduce_bytes s) s) (\<lambda>s1.
     bindE (alloc_h_reduce (reduce_bytes s) s1) (\<lambda>s2.
     checkCudaError (read_fast_reduce_env (cudaEventCreateWithFlags s2))))"

definition endReduce :: "reduce_state \<Rightarrow> reduce_state" where
  "endReduce s =
     (let s1 = (if d_reduce s \<noteq> 0 then (device_free (d_reduce s) s)\<lparr>d_reduce := 0\<rparr> else s);
          s2 = (if h_reduce s1 \<noteq> 0 then (host_free (h_reduce s1) s1)\<lparr>h_reduce := 0\<rparr> else s1);
          s3 = s2\<lparr>hd_reduce := 0\<rparr>
      in cudaEventDestroy (reduceEnd s3) s3)"

section \<open>Vector types and the per-element helpers\<close>

text \<open>
  \<^verbatim>\<open>double\<close> and \<^verbatim>\<open>float\<close> are the reals, and arithmetic on them is exact unless a
  rounding function is named. \<^verbatim>\<open>double2\<close>, \<^verbatim>\<open>double3\<close>, \<^verbatim>\<open>double4\<close> are the
  CUDA vector structs with their \<^verbatim>\<open>make_\<close> constructors; the selectors carry the width
  of the struct (\<open>x2\<close> is \<^verbatim>\<open>.x\<close> of a \<^verbatim>\<open>double2\<close>). The field element type \<^verbatim>\<open>FloatN\<close> of the
  dispatcher below is the two-component vector: over the reals the \<^verbatim>\<open>double2\<close> and
  \<^verbatim>\<open>float2\<close> overloads of every helper have the same body. The \<^verbatim>\<open>float4\<close> overloads are
  given as well; each treats a \<^verbatim>\<open>float4\<close> as the two pairs \<open>(x, y)\<close> and \<open>(z, w)\<close>.
\<close>

datatype double2 = make_double2 (x2: real) (y2: real)
datatype double3 = make_double3 (x3: real) (y3: real) (z3: real)
datatype double4 = make_double4 (x4: real) (y4: real) (z4: real) (w4: real)

datatype float4 = make_float4 (x4f: real) (y4f: real) (z4f: real) (w4f: real)

type_synonym FloatN = double2

text \<open>
  Modelled from the spec: the arithmetic operators on vector structs come from
  \<^verbatim>\<open>float_vector.h\<close>, which is not among the sources; they act componentwise. The sums
  are what the all-reduce of a tuple and the zero-initialised accumulators need.
\<close>

instantiation double2 :: comm_monoid_add
begin
definition zero_double2 :: double2 where
  "zero_double2 = make_double2 0 0"
definition plus_double2 :: "double2 \<Rightarrow> double2 \<Rightarrow> double2" where
  "plus_double2 a b = make_double2 (x2 a + x2 b) (y2 a + y2 b)"
instance
  by standard (simp_all add: zero_double2_def plus_double2_def)
end

instantiation double3 :: comm_monoid_add
begin
definition zero_double3 :: double3 where
  "zero_double3 = make_double3 0 0 0"
definition plus_double3 :: "double3 \<Rightarrow> double3 \<Rightarrow> double3" where
  "plus_double3 a b = make_double3 (x3 a + x3 b) (y3 a + y3 b) (z3 a + z3 b)"
instance
  by standard (simp_all add: zero_double3_def plus_double3_def)
end

instantiation double4 :: comm_monoid_add
begin
definition zero_double4 :: double4 where
  "zero_double4 = make_double4 0 0 0 0"
definition plus_double4 :: "double4 \<Rightarrow> double4 \<Rightarrow> double4" where
  "plus_double4 a b = make_double4 (x4 a + x4 b) (y4 a + y4 b) (z4 a + z4 b) (w4 a + w4 b)"
instance
  by standard (simp_all add: zero_double4_def plus_double4_def)
end

definition smul :: "real \<Rightarrow> FloatN \<Rightarrow> FloatN" where
  "smul c a = make_double2 (c * x2 a) (c * y2 a)"

definition fdiv :: "real \<Rightarrow> real \<Rightarrow> error + real" where
  "fdiv a b = (if b = 0 then Inl ZeroDivisor else Inr (a / b))"

definition norm1_fn :: "FloatN \<Rightarrow> real" where
  "norm1_fn a = \<bar>x2 a\<bar> + \<bar>y2 a\<bar>"

definition norm2_fn :: "real \<Rightarrow> FloatN \<Rightarrow> real" where
  "norm2_fn acc a = (acc + x2 a * x2 a) + y2 a * y2 a"

definition dot_fn :: "real \<Rightarrow> FloatN \<Rightarrow> FloatN \<Rightarrow> real" where
  "dot_fn acc a b = (acc + x2 a * x2 b) + y2 a * y2 b"

definition cdot_fn :: "double2 \<Rightarrow> FloatN \<Rightarrow> FloatN \<Rightarrow> double2" where
  "cdot_fn acc a b =
     make_double2 ((x2 acc + x2 a * x2 b) + y2 a * y2 b)
                  ((y2 acc + x2 a * y2 b) - y2 a * x2 b)"

definition lo :: "float4 \<Rightarrow> FloatN" where
  "lo a = make_double2 (x4f a) (y4f a)"

definition hi :: "float4 \<Rightarrow> FloatN" where
  "hi a = make_double2 (z4f a) (w4f a)"

definition norm1_fn4 :: "float4 \<Rightarrow> real" where
  "norm1_fn4 a = \<bar>x4f a\<bar> + \<bar>y4f a\<bar> + \<bar>z4f a\<bar> + \<bar>w4f a\<bar>"

definition norm2_fn4 :: "real \<Rightarrow> float4 \<Rightarrow> real" where
  "norm2_fn4 acc a = (((acc + x4f a * x4f a) + y4f a * y4f a) + z4f a * z4f a) + w4f a * w4f a"

definition dot_fn4 :: "real \<Rightarrow> float4 \<Rightarrow> float4 \<Rightarrow> real" where
  "dot_fn4 acc a b = (((acc + x4f a * x4f b) + y4f a * y4f b) + z4f a * z4f b) + w4f a * w4f b"

definition cdot_fn4 :: "double2 \<Rightarrow> float4 \<Rightarrow> float4 \<Rightarrow> double2" where
  "cdot_fn4 acc a b =
     make_double2 ((((x2 acc + x4f a * x4f b) + y4f a * y4f b) + z4f a * z4f b) + w4f a * w4f b)
                  ((((y2 acc + x4f a * y4f b) - y4f a * x4f b) + z4f a * w4f b) - w4f a * z4f b)"

text \<open>
  Double arithmetic. \<open>cdot_rnd\<close> and \<open>cdot_rnd4\<close> are \<^verbatim>\<open>cdot_\<close> once more, with the rounding
  of every product, sum and difference made explicit by a function \<open>rnd\<close>, applied in the
  order in which the source performs the operations; with the identity for \<open>rnd\<close> they are
  \<open>cdot_fn\<close> and \<open>cdot_fn4\<close>. \<open>round_double\<close> rounds to the nearest number with 53
  significant bits, ties to the even one, as IEEE binary64 does; the exponent range is
  unbounded, so there is no overflow and there are no subnormal numbers.
\<close>

definition round_half_even :: "real \<Rightarrow> int" where
  "round_half_even q =
     (let f = \<lfloor>q\<rfloor>; d = q - of_int f
      in if d < 1 / 2 then f else if 1 / 2 < d then f + 1 else if even f then f else f + 1)"





section \<open>The functor catalog\<close>

text \<open>
  A functor is the struct derived from \<^verbatim>\<open>ReduceFunctor\<close>: its data members that change
  during a kernel (\<open>member\<close>, e.g. \<^verbatim>\<open>aux\<close>), \<^verbatim>\<open>pre()\<close>, \<^verbatim>\<open>operator()\<close> (\<open>call\<close>, which may
  update the sum \<open>acc\<close> and each of the five operands it receives by reference), \<^verbatim>\<open>post()\<close>,
  \<^verbatim>\<open>streams()\<close> and \<^verbatim>\<open>flops()\<close>. The constructor arguments \<^verbatim>\<open>a\<close>, \<^verbatim>\<open>b\<close> are arguments
  of the definition.
\<close>

type_synonym operands = "FloatN \<times> FloatN \<times> FloatN \<times> FloatN \<times> FloatN"

record ('m, 'r) ReduceFunctor =
  member :: 'm
  pre :: "'m \<Rightarrow> 'm"
  call :: "'m \<Rightarrow> 'r \<Rightarrow> operands \<Rightarrow> 'm \<times> 'r \<times> operands"
  post :: "'m \<Rightarrow> 'r \<Rightarrow> error + 'r"
  streams :: nat
  flops :: nat

definition ReduceFunctor_pre :: "'m \<Rightarrow> 'm" where
  "ReduceFunctor_pre m = m"

definition ReduceFunctor_post :: "'m \<Rightarrow> 'r \<Rightarrow> error + 'r" where
  "ReduceFunctor_post m acc = Inr acc"

definition Norm1 :: "double2 \<Rightarrow> double2 \<Rightarrow> (unit, real) ReduceFunctor" where
  "Norm1 a b =
     \<lparr>member = (), pre = ReduceFunctor_pre,
      call = (\<lambda>m acc (x, y, z, w, v). (m, acc + norm1_fn x, (x, y, z, w, v))),
      post = ReduceFunctor_post, streams = 1, flops = 2\<rparr>"

definition Norm2 :: "double2 \<Rightarrow> double2 \<Rightarrow> (unit, real) ReduceFunctor" where
  "Norm2 a b =
     \<lparr>member = (), pre = ReduceFunctor_pre,
      call = (\<lambda>m acc (x, y, z, w, v). (m, norm2_fn acc x, (x, y, z, w, v))),
      post = ReduceFunctor_post, streams = 1, flops = 2\<rparr>"

definition Dot :: "double2 \<Rightarrow> double2 \<Rightarrow> (unit, real) ReduceFunctor" where
  "Dot a b =
     \<lparr>member = (), pre = ReduceFunctor_pre,
      call = (\<lambda>m acc (x, y, z, w, v). (m, dot_fn acc x y, (x, y, z, w, v))),
      post = ReduceFunctor_post, streams = 2, flops = 2\<rparr>"

definition axpbyzNorm2 :: "double2 \<Rightarrow> double2 \<Rightarrow> (unit, real) ReduceFunctor" where
  "axpbyzNorm2 a b =
     \<lparr>member = (), pre = ReduceFunctor_pre,
      call = (\<lambda>m acc (x, y, z, w, v).
                let z' = smul (x2 a) x + smul (x2 b) y
                in (m, norm2_fn acc z', (x, y, z', w, v))),
      post = ReduceFunctor_post, streams = 3, flops = 4\<rparr>"

definition Cdot :: "double2 \<Rightarrow> double2 \<Rightarrow> (unit, double2) ReduceFunctor" where
  "Cdot a b =
     \<lparr>member = (), pre = ReduceFunctor_pre,
      call = (\<lambda>m acc (x, y, z, w, v). (m, cdot_fn acc x y, (x, y, z, w, v))),
      post = ReduceFunctor_post, streams = 2, flops = 4\<rparr>"

text \<open>
  The heavy-quark functors keep the site norms in the member \<^verbatim>\<open>aux\<close>: \<^verbatim>\<open>pre()\<close> clears
  \<^verbatim>\<open>aux.x\<close> and \<^verbatim>\<open>aux.y\<close>, \<^verbatim>\<open>operator()\<close> accumulates into them and leaves the sum alone,
  \<^verbatim>\<open>post()\<close> folds them into the sum. The quotient \<^verbatim>\<open>aux.y / aux.x\<close> goes through \<open>fdiv\<close>.
  The helpers \<^verbatim>\<open>norm1_\<close>, \<^verbatim>\<open>norm2_\<close>, \<^verbatim>\<open>dot_\<close>, \<^verbatim>\<open>cdot_\<close> are \<open>norm1_fn\<close>, \<open>norm2_fn\<close>,
  \<open>dot_fn\<close>, \<open>cdot_fn\<close>, and a struct \<^verbatim>\<open>F_\<close> is \<open>F_functor\<close>: a name cannot end in an
  underscore here.
\<close>

definition HeavyQuarkResidualNorm_pre :: "double3 \<Rightarrow> double3" where
  "HeavyQuarkResidualNorm_pre aux = make_double3 0 0 (z3 aux)"

definition HeavyQuarkResidualNorm_call ::
  "double3 \<Rightarrow> double3 \<Rightarrow> operands \<Rightarrow> double3 \<times> double3 \<times> operands" where
  "HeavyQuarkResidualNorm_call aux acc ops =
     (case ops of (x, y, z, w, v) \<Rightarrow>
        (make_double3 (norm2_fn (x3 aux) x) (norm2_fn (y3 aux) y) (z3 aux), acc, (x, y, z, w, v)))"

definition HeavyQuarkResidualNorm_post :: "double3 \<Rightarrow> double3 \<Rightarrow> error + double3" where
  "HeavyQuarkResidualNorm_post aux acc =
     bindE (if x3 aux > 0 then fdiv (y3 aux) (x3 aux) else Inr 1)
       (\<lambda>q. Inr (make_double3 (x3 acc + x3 aux) (y3 acc + y3 aux) (z3 acc + q)))"

definition HeavyQuarkResidualNorm_functor :: "double2 \<Rightarrow> double2 \<Rightarrow> (double3, double3) ReduceFunctor" where
  "HeavyQuarkResidualNorm_functor a b =
     \<lparr>member = make_double3 0 0 0, pre = HeavyQuarkResidualNorm_pre,
      call = HeavyQuarkResidualNorm_call, post = HeavyQuarkResidualNorm_post,
      streams = 2, flops = 4\<rparr>"

definition xpyHeavyQuarkResidualNorm_pre :: "double3 \<Rightarrow> double3" where
  "xpyHeavyQuarkResidualNorm_pre aux = make_double3 0 0 (z3 aux)"

definition xpyHeavyQuarkResidualNorm_call ::
  "double3 \<Rightarrow> double3 \<Rightarrow> operands \<Rightarrow> double3 \<times> double3 \<times> operands" where
  "xpyHeavyQuarkResidualNorm_call aux acc ops =
     (case ops of (x, y, z, w, v) \<Rightarrow>
        (make_double3 (norm2_fn (x3 aux) (x + y)) (norm2_fn (y3 aux) z) (z3 aux), acc, (x, y, z, w, v)))"

definition xpyHeavyQuarkResidualNorm_post :: "double3 \<Rightarrow> double3 \<Rightarrow> error + double3" where
  "xpyHeavyQuarkResidualNorm_post aux acc =
     bindE (if x3 aux > 0 then fdiv (y3 aux) (x3 aux) else Inr 1)
       (\<lambda>q. Inr (make_double3 (x3 acc + x3 aux) (y3 acc + y3 aux) (z3 acc + q)))"

definition xpyHeavyQuarkResidualNorm_functor :: "double2 \<Rightarrow> double2 \<Rightarrow> (double3, double3) ReduceFunctor" where
  "xpyHeavyQuarkResidualNorm_functor a b =
     \<lparr>member = make_double3 0 0 0, pre = xpyHeavyQuarkResidualNorm_pre,
      call = xpyHeavyQuarkResidualNorm_call, post = xpyHeavyQuarkResidualNorm_post,
      streams = 3, flops = 5\<rparr>"

definition quadrupleCGReduction_functor :: "double2 \<Rightarrow> double2 \<Rightarrow> (unit, double4) ReduceFunctor" where
  "quadrupleCGReduction_functor a b =
     \<lparr>member = (), pre = ReduceFunctor_pre,
      call = (\<lambda>m acc (x, y, z, w, v).
                (m, make_double4 (norm2_fn (x4 acc) x) (norm2_fn (y4 acc) y)
                                 (dot_fn (z4 acc) y z) (norm2_fn (w4 acc) w),
                 (x, y, z, w, v))),
      post = ReduceFunctor_post, streams = 3, flops = 8\<rparr>"

section \<open>Fields, device memory and processes\<close>

text \<open>
  A \<^verbatim>\<open>ColorSpinorField\<close> is passed by reference, and the entry points bind one field to
  several operand slots, so a field is its address together with the attributes the
  code reads; its elements live in the memory of each process. One process's memory is
  a \<open>store\<close> (field address, element index, value); the processes of the run and their
  memories are a \<open>world\<close>, one store per process. The attributes of a field are the same
  on every process, its elements are not. \<open>Length\<close> counts real numbers, two per
  element.
\<close>

record ColorSpinorField =
  addr :: nat
  Precision :: QudaPrecision
  Length :: nat
  Stride :: nat
  Ncolor :: nat
  Nspin :: nat
  Volume :: nat

type_synonym store = "nat \<Rightarrow> nat \<Rightarrow> FloatN"
type_synonym world = "store list"

definition checkSpinor :: "ColorSpinorField \<Rightarrow> ColorSpinorField \<Rightarrow> error + unit" where
  "checkSpinor a b =
     (if Precision a \<noteq> Precision b then Inl (PrecisionsDoNotMatch (Precision a) (Precision b))
      else if Length a \<noteq> Length b then Inl (LengthsDoNotMatch (Length a) (Length b))
      else if Stride a \<noteq> Stride b then Inl (StridesDoNotMatch (Stride a) (Stride b))
      else Inr ())"

text \<open>
  Modelled from the spec: \<^verbatim>\<open>comm_size()\<close> and the sum all-reduce are the distributed
  collective, outside the sources: ``a process-count query and a sum-all-reduce over a
  fixed-shape scalar tuple''. Every process receives the sum of the local results.
\<close>

definition comm_size :: "world \<Rightarrow> nat" where
  "comm_size W = length W"

definition comm_allreduce :: "('r::comm_monoid_add) list \<Rightarrow> 'r" where
  "comm_allreduce locals = sum_list locals"

section \<open>The generic reduction dispatcher\<close>

text \<open>
  Modelled from the spec: \<^verbatim>\<open>reduce::reduceCuda\<close> comes from \<^verbatim>\<open>reduce_core.h\<close>, which is
  not among the sources. The spec's dispatcher takes the functor, five
  ``writes-this-operand'' flags and the site-unroll flag; it checks that the operands
  are compatible (fatal otherwise), runs a loop over the array in which the functor's
  update is applied to every element and its contribution is accumulated, writes back
  the operands whose flag is set, and sums the local result over all processes before
  returning it. \<^verbatim>\<open>pre()\<close> and \<^verbatim>\<open>post()\<close> run around the loop over the \<open>M\<close> elements of one
  site, as the comments of \<^verbatim>\<open>ReduceFunctor\<close> and of the heavy-quark functor say (``before
  the M-loop'', ``\<open>M\<close> corresponds to the number of FloatN fields used to represent the
  spinor''): with site unrolling \<open>M\<close> is the number of elements of a site, \<open>1\<close> without.
  An element is loaded from each of the five operands, passed to the functor, and saved
  to the operands whose flag is set, in the order \<open>x, y, z, w, v\<close>; two operands may be the
  same field. The sites are visited in index order; over the reals the partition of the
  sites into threads and blocks only reorders the sum.
\<close>

type_synonym write_flags = "bool \<times> bool \<times> bool \<times> bool \<times> bool"
type_synonym fields = 
  "ColorSpinorField \<times> ColorSpinorField \<times> ColorSpinorField \<times> ColorSpinorField \<times> ColorSpinorField"

definition load :: "store \<Rightarrow> ColorSpinorField \<Rightarrow> nat \<Rightarrow> FloatN" where
  "load st f k = st (addr f) k"

definition save :: "bool \<Rightarrow> ColorSpinorField \<Rightarrow> nat \<Rightarrow> FloatN \<Rightarrow> store \<Rightarrow> store" where
  "save write f k val st = (if write then st(addr f := (st (addr f))(k := val)) else st)"

definition elem_step ::
  "('m, 'r) ReduceFunctor \<Rightarrow> write_flags \<Rightarrow> fields \<Rightarrow> nat \<Rightarrow> 'm \<times> 'r \<times> store \<Rightarrow> 'm \<times> 'r \<times> store" where
  "elem_step r fl fs k s =
     (case fl of (writeX, writeY, writeZ, writeW, writeV) \<Rightarrow>
      case fs of (X, Y, Z, W, V) \<Rightarrow>
      case s of (m, acc, st) \<Rightarrow>
      case call r m acc (load st X k, load st Y k, load st Z k, load st W k, load st V k) of
        (m', acc', (x, y, z, w, v)) \<Rightarrow>
          (m', acc',
           save writeV V k v (save writeW W k w (save writeZ Z k z
             (save writeY Y k y (save writeX X k x st))))))"

primrec for_loop :: "nat \<Rightarrow> (nat \<Rightarrow> 's \<Rightarrow> 's) \<Rightarrow> 's \<Rightarrow> 's" where
  "for_loop 0 body s = s"
| "for_loop (Suc n) body s = body n (for_loop n body s)"

primrec for_loopE :: "nat \<Rightarrow> (nat \<Rightarrow> 's \<Rightarrow> error + 's) \<Rightarrow> 's \<Rightarrow> error + 's" where
  "for_loopE 0 body s = Inr s"
| "for_loopE (Suc n) body s = bindE (for_loopE n body s) (body n)"

definition site_step ::
  "('m, 'r) ReduceFunctor \<Rightarrow> write_flags \<Rightarrow> fields \<Rightarrow> nat \<Rightarrow> nat \<Rightarrow> 'm \<times> 'r \<times> store
     \<Rightarrow> error + 'm \<times> 'r \<times> store" where
  "site_step r fl fs M i s =
     (case s of (m, acc, st) \<Rightarrow>
      case for_loop M (\<lambda>j. elem_step r fl fs (i * M + j)) (pre r m, acc, st) of
        (m', acc', st') \<Rightarrow> bindE (post r m' acc') (\<lambda>acc''. Inr (m', acc'', st')))"

definition reduce_kernel ::
  "('m, 'r::comm_monoid_add) ReduceFunctor \<Rightarrow> write_flags \<Rightarrow> fields \<Rightarrow> nat \<Rightarrow> nat \<Rightarrow> store
     \<Rightarrow> error + 'r \<times> store" where
  "reduce_kernel r fl fs M n st =
     bindE (for_loopE n (site_step r fl fs M) (member r, 0, st))
       (\<lambda>(m, acc, st'). Inr (acc, st'))"

primrec mapE :: "('a \<Rightarrow> error + 'b) \<Rightarrow> 'a list \<Rightarrow> error + 'b list" where
  "mapE f [] = Inr []"
| "mapE f (p # ps) = bindE (f p) (\<lambda>q. bindE (mapE f ps) (\<lambda>qs. Inr (q # qs)))"

definition site_elems :: "bool \<Rightarrow> ColorSpinorField \<Rightarrow> nat" where
  "site_elems siteUnroll x = (if siteUnroll then Nspin x * Ncolor x else 1)"

definition num_sites :: "bool \<Rightarrow> ColorSpinorField \<Rightarrow> nat" where
  "num_sites siteUnroll x =
     (if site_elems siteUnroll x = 0 then 0 else Length x div (2 * site_elems siteUnroll x))"

definition reduceCuda ::
  "(double2 \<Rightarrow> double2 \<Rightarrow> ('m, 'r::comm_monoid_add) ReduceFunctor) \<Rightarrow> write_flags \<Rightarrow> bool
     \<Rightarrow> double2 \<Rightarrow> double2
     \<Rightarrow> ColorSpinorField \<Rightarrow> ColorSpinorField \<Rightarrow> ColorSpinorField \<Rightarrow> ColorSpinorField
     \<Rightarrow> ColorSpinorField \<Rightarrow> world \<Rightarrow> error + 'r \<times> world" where
  "reduceCuda R fl siteUnroll a b x y z w v W =
     bindE (checkSpinor x y) (\<lambda>_.
     bindE (checkSpinor x z) (\<lambda>_.
     bindE (checkSpinor x w) (\<lambda>_.
     bindE (checkSpinor x v) (\<lambda>_.
     bindE (mapE (reduce_kernel (R a b) fl (x, y, z, w, v)
                    (site_elems siteUnroll x) (num_sites siteUnroll x)) W)
       (\<lambda>locals. Inr (comm_allreduce (map fst locals), map snd locals))))))"

section \<open>The entry points\<close>

definition norm1 :: "ColorSpinorField \<Rightarrow> world \<Rightarrow> error + real \<times> world" where
  "norm1 x W =
     (let y = x
      in reduceCuda Norm1 (False, False, False, False, False) False
           (make_double2 0 0) (make_double2 0 0) y y y y y W)"

definition norm2 :: "ColorSpinorField \<Rightarrow> world \<Rightarrow> error + real \<times> world" where
  "norm2 x W =
     (let y = x
      in reduceCuda Norm2 (False, False, False, False, False) False
           (make_double2 0 0) (make_double2 0 0) y y y y y W)"

definition reDotProduct :: "ColorSpinorField \<Rightarrow> ColorSpinorField \<Rightarrow> world \<Rightarrow> error + real \<times> world" where
  "reDotProduct x y W =
     reduceCuda Dot (False, False, False, False, False) False
       (make_double2 0 0) (make_double2 0 0) x y x x x W"

definition axpbyzNorm ::
  "real \<Rightarrow> ColorSpinorField \<Rightarrow> real \<Rightarrow> ColorSpinorField \<Rightarrow> ColorSpinorField \<Rightarrow> world
     \<Rightarrow> error + real \<times> world" where
  "axpbyzNorm a x b y z W =
     reduceCuda axpbyzNorm2 (False, False, True, False, False) False
       (make_double2 a 0) (make_double2 b 0) x y z x x W"

definition cDotProduct :: "ColorSpinorField \<Rightarrow> ColorSpinorField \<Rightarrow> world \<Rightarrow> error + complex \<times> world" where
  "cDotProduct x y W =
     bindE (reduceCuda Cdot (False, False, False, False, False) False
              (make_double2 0 0) (make_double2 0 0) x y x x x W)
       (\<lambda>(cdot, W'). Inr (Complex (x2 cdot) (y2 cdot), W'))"

text \<open>
  The heavy-quark entry points divide the third component by \<^verbatim>\<open>x.Volume()*comm_size()\<close>
  without a test and return. The quotient is the one of the reals; where the divisor is
  zero the source returns an infinity or a NaN, which no real number stands for.
\<close>

definition HeavyQuarkResidualNorm ::
  "ColorSpinorField \<Rightarrow> ColorSpinorField \<Rightarrow> world \<Rightarrow> error + double3 \<times> world" where
  "HeavyQuarkResidualNorm x r W =
     (if Ncolor x \<noteq> 3 then Inr (make_double3 0 0 0, W)
      else bindE (reduceCuda HeavyQuarkResidualNorm_functor (False, False, False, False, False) True
                    (make_double2 0 0) (make_double2 0 0) x r r r r W)
             (\<lambda>(rtn, W').
                Inr (make_double3 (x3 rtn) (y3 rtn) (z3 rtn / real (Volume x * comm_size W)), W')))"

definition xpyHeavyQuarkResidualNorm ::
  "ColorSpinorField \<Rightarrow> ColorSpinorField \<Rightarrow> ColorSpinorField \<Rightarrow> world \<Rightarrow> error + double3 \<times> world" where
  "xpyHeavyQuarkResidualNorm x y r W =
     (if Ncolor x \<noteq> 3 then Inr (make_double3 0 0 0, W)
      else bindE (reduceCuda xpyHeavyQuarkResidualNorm_functor (False, False, False, False, False) True
                    (make_double2 0 0) (make_double2 0 0) x y r r r W)
             (\<lambda>(rtn, W').
                Inr (make_double3 (x3 rtn) (y3 rtn) (z3 rtn / real (Volume x * comm_size W)), W')))"

definition quadrupleCGReduction ::
  "ColorSpinorField \<Rightarrow> ColorSpinorField \<Rightarrow> ColorSpinorField \<Rightarrow> world \<Rightarrow> error + double4 \<times> world" where
  "quadrupleCGReduction x y z W =
     reduceCuda quadrupleCGReduction_functor (False, False, False, False, False) False
       (make_double2 0 0) (make_double2 0 0) x y z x x W"

section \<open>Reference values\<close>

text \<open>
  What the catalog of the spec says each reduction computes, element by element:
  \<open>sqnorm\<close> is the contribution of one element to \<open>\<Sum> x\<cdot>x\<close>, \<open>redot\<close> to \<open>\<Sum> Re(x\<cdot>y)\<close>,
  and \<open>redot\<close>, \<open>imdot\<close> are the two parts of its contribution to \<open>\<Sum> conj(x)\<cdot>y\<close>.
\<close>

definition sqnorm :: "FloatN \<Rightarrow> real" where
  "sqnorm a = x2 a * x2 a + y2 a * y2 a"

definition redot :: "FloatN \<Rightarrow> FloatN \<Rightarrow> real" where
  "redot a b = x2 a * x2 b + y2 a * y2 b"

definition imdot :: "FloatN \<Rightarrow> FloatN \<Rightarrow> real" where
  "imdot a b = x2 a * y2 b - y2 a * x2 b"

text \<open>
  The independent elementwise computation of \<open>z = a\<cdot>x + b\<cdot>y\<close> on the memory of one
  process: every element of \<open>z\<close> is computed from the contents of \<open>x\<close> and \<open>y\<close> before
  the call, and nothing but the elements of \<open>z\<close> changes.
\<close>

definition axpbyz_store ::
  "real \<Rightarrow> ColorSpinorField \<Rightarrow> real \<Rightarrow> ColorSpinorField \<Rightarrow> ColorSpinorField \<Rightarrow> store \<Rightarrow> store" where
  "axpbyz_store a x b y z st =
     st(addr z := (\<lambda>k. if k < Length z div 2
                         then smul a (st (addr x) k) + smul b (st (addr y) k)
                         else st (addr z) k))"

text \<open>
  The heavy-quark sums of one process: for each of the \<open>n\<close> sites the solution norm, the
  residual norm, and their ratio (\<open>1\<close> for a site whose solution norm is not positive),
  each norm summed over the \<open>M\<close> elements of the site.
\<close>

definition hq_ratio :: "real \<Rightarrow> real \<Rightarrow> real" where
  "hq_ratio sx sr = (if 0 < sx then sr / sx else 1)"

definition heavy_quark_sum :: "(nat \<Rightarrow> real) \<Rightarrow> (nat \<Rightarrow> real) \<Rightarrow> nat \<Rightarrow> nat \<Rightarrow> double3" where
  "heavy_quark_sum fx fr M n =
     (\<Sum>i<n. make_double3 (\<Sum>j<M. fx (i * M + j)) (\<Sum>j<M. fr (i * M + j))
                            (hq_ratio (\<Sum>j<M. fx (i * M + j)) (\<Sum>j<M. fr (i * M + j))))"

section \<open>Example inputs\<close>

text \<open>
  A process before the first \<^verbatim>\<open>initReduce\<close>, on an 80-multiprocessor device that maps host
  memory, and the same process after it.
\<close>

definition boot :: reduce_state where
  "boot = \<lparr>deviceProp = \<lparr>multiProcessorCount = 80, canMapHostMemory = True\<rparr>,
     LP64 = True, MAX_MULTI_BLAS_N = 4, QUDA_ENABLE_FAST_REDUCE = Some ''1'',
     device_avail = 1000000, host_avail = 1000000, device_live = [], host_live = [],
     next_ptr = 0, mapped_alias = (\<lambda>h. h + 4096), events = [], next_event = 0,
     cuda_error = False, warnings = [],
     d_reduce = 0, h_reduce = 0, hd_reduce = 0, reduceEnd = 0, fast_reduce_enabled = False\<rparr>"

definition boot_live :: reduce_state where
  "boot_live = boot\<lparr>device_avail := 836160, host_avail := 836160,
     device_live := [(1, 163840)], host_live := [(2, 163840)], next_ptr := 2,
     events := [1], next_event := 1, warnings := [''Experimental fast reductions enabled''],
     d_reduce := 1, h_reduce := 2, hd_reduce := 4098, reduceEnd := 1,
     fast_reduce_enabled := True\<rparr>"

text \<open>
  Three compatible staggered fields (one spin, three colors, two sites: twelve reals,
  six elements), a multigrid field with 24 colors that is compatible with none of them,
  and a run of two processes.
\<close>

definition ex_x :: ColorSpinorField where
  "ex_x = \<lparr>addr = 1, Precision = QUDA_DOUBLE_PRECISION, Length = 12, Stride = 6,
           Ncolor = 3, Nspin = 1, Volume = 2\<rparr>"

definition ex_y :: ColorSpinorField where
  "ex_y = \<lparr>addr = 2, Precision = QUDA_DOUBLE_PRECISION, Length = 12, Stride = 6,
           Ncolor = 3, Nspin = 1, Volume = 2\<rparr>"

definition ex_r :: ColorSpinorField where
  "ex_r = \<lparr>addr = 3, Precision = QUDA_DOUBLE_PRECISION, Length = 12, Stride = 6,
           Ncolor = 3, Nspin = 1, Volume = 2\<rparr>"

definition ex_mg :: ColorSpinorField where
  "ex_mg = \<lparr>addr = 4, Precision = QUDA_SINGLE_PRECISION, Length = 96, Stride = 48,
            Ncolor = 24, Nspin = 2, Volume = 1\<rparr>"

definition ex_st1 :: store where
  "ex_st1 = (\<lambda>a k. if a = 1 then make_double2 (real k) 1
                    else if a = 2 then make_double2 1 (real k)
                    else if a = 3 then make_double2 2 0
                    else make_double2 0 0)"

definition ex_st2 :: store where
  "ex_st2 = (\<lambda>a k. if a = 3 then make_double2 1 1 else make_double2 0 0)"

definition ex_W :: world where
  "ex_W = [ex_st1, ex_st2]"

section \<open>Properties of the buffer manager\<close>

lemma bindE_simps [simp]: "bindE (Inr v) f = f v" "bindE (Inl e) f = Inl e"
  by (simp_all add: bindE_def)

lemma bindE_Inr: "bindE m f = Inr v \<longleftrightarrow> (\<exists>u. m = Inr u \<and> f u = Inr v)"
  by (cases m) simp_all

lemma not_fatal_Inr: "\<not> is_fatal m \<Longrightarrow> \<exists>v. m = Inr v"
  by (cases m) (simp_all add: is_fatal_def)

lemma read_fast_reduce_env_keeps:
  "d_reduce (read_fast_reduce_env s) = d_reduce s"
  "h_reduce (read_fast_reduce_env s) = h_reduce s"
  "hd_reduce (read_fast_reduce_env s) = hd_reduce s"
  "device_live (read_fast_reduce_env s) = device_live s"
  "host_live (read_fast_reduce_env s) = host_live s"
  "device_avail (read_fast_reduce_env s) = device_avail s"
  "host_avail (read_fast_reduce_env s) = host_avail s"
  "cuda_error (read_fast_reduce_env s) = cuda_error s"
  "deviceProp (read_fast_reduce_env s) = deviceProp s"
  "MAX_MULTI_BLAS_N (read_fast_reduce_env s) = MAX_MULTI_BLAS_N s"
  by (simp_all add: read_fast_reduce_env_def warningQuda_def split: option.splits)

lemma cudaEventCreateWithFlags_keeps:
  "d_reduce (cudaEventCreateWithFlags s) = d_reduce s"
  "h_reduce (cudaEventCreateWithFlags s) = h_reduce s"
  "hd_reduce (cudaEventCreateWithFlags s) = hd_reduce s"
  "device_live (cudaEventCreateWithFlags s) = device_live s"
  "host_live (cudaEventCreateWithFlags s) = host_live s"
  "device_avail (cudaEventCreateWithFlags s) = device_avail s"
  "host_avail (cudaEventCreateWithFlags s) = host_avail s"
  "cuda_error (cudaEventCreateWithFlags s) = cuda_error s"
  "deviceProp (cudaEventCreateWithFlags s) = deviceProp s"
  "MAX_MULTI_BLAS_N (cudaEventCreateWithFlags s) = MAX_MULTI_BLAS_N s"
  by (simp_all add: cudaEventCreateWithFlags_def)

text \<open>With both buffers live the two allocation guards are skipped.\<close>

lemma initReduce_live:
  assumes "d_reduce s \<noteq> 0" "h_reduce s \<noteq> 0"
  shows "initReduce s = checkCudaError (read_fast_reduce_env (cudaEventCreateWithFlags s))"
  using assms by (simp add: initReduce_def alloc_d_reduce_def alloc_h_reduce_def)

lemma reduce_bytes_boot: "reduce_bytes boot = 163840"
  by (simp add: reduce_bytes_def boot_def sizeof_QudaSumFloat_def)

lemma initReduce_boot: "initReduce boot = Inr boot_live"
  unfolding initReduce_def reduce_bytes_boot
  by (simp add: boot_def boot_live_def alloc_d_reduce_def alloc_h_reduce_def
      device_malloc_def mapped_malloc_def host_malloc_def cudaHostGetDevicePointer_def
      checkCudaError_def read_fast_reduce_env_def warningQuda_def cudaEventCreateWithFlags_def)

lemma boot_live_handles:
  "d_reduce boot_live = 1" "h_reduce boot_live = 2" "hd_reduce boot_live = 4098"
  "cuda_error boot_live = False" "d_reduce boot = 0" "h_reduce boot = 0"
  by (simp_all add: boot_live_def boot_def)

text \<open>
  C5 (as the code has it): a second \<^verbatim>\<open>initReduce\<close> while both buffers are live is not an
  error of its own. The guards \<^verbatim>\<open>if (!d_reduce)\<close> and \<^verbatim>\<open>if (!h_reduce)\<close> skip the
  allocations: no memory is taken, and the device, host and device-alias handles and both
  allocation tables are kept. The fast-reduce toggle is read again and can only be
  switched on. The call is fatal when \<^verbatim>\<open>checkCudaError\<close> finds an error of the CUDA
  runtime pending, and returns normally otherwise.
\<close>

theorem initReduce_while_live:
  assumes "d_reduce s \<noteq> 0" and "h_reduce s \<noteq> 0"
  shows "(cuda_error s \<longrightarrow> initReduce s = Inl CudaError)
       \<and> (\<not> cuda_error s \<longrightarrow>
            (\<exists>s'. initReduce s = Inr s' \<and> d_reduce s' = d_reduce s \<and> h_reduce s' = h_reduce s
                  \<and> hd_reduce s' = hd_reduce s \<and> device_live s' = device_live s
                  \<and> host_live s' = host_live s \<and> device_avail s' = device_avail s
                  \<and> host_avail s' = host_avail s \<and> next_ptr s' = next_ptr s
                  \<and> fast_reduce_enabled s'
                      = (fast_reduce_enabled s \<or> QUDA_ENABLE_FAST_REDUCE s = Some ''1'')))"
proof -
  let ?s' = "read_fast_reduce_env (cudaEventCreateWithFlags s)"
  have toggle: "fast_reduce_enabled ?s'
                  = (fast_reduce_enabled s \<or> QUDA_ENABLE_FAST_REDUCE s = Some ''1'')"
    by (simp add: read_fast_reduce_env_def cudaEventCreateWithFlags_def warningQuda_def
        split: option.splits)
  have ptr: "next_ptr ?s' = next_ptr s"
    by (simp add: read_fast_reduce_env_def cudaEventCreateWithFlags_def warningQuda_def
        split: option.splits)
  show ?thesis
    using toggle ptr
    by (simp add: initReduce_live [OF assms] checkCudaError_def read_fast_reduce_env_keeps
        cudaEventCreateWithFlags_keeps)
qed

theorem initReduce_while_live_witness:
  "d_reduce boot_live \<noteq> 0 \<and> h_reduce boot_live \<noteq> 0 \<and> \<not> cuda_error boot_live
   \<and> (\<exists>s'. initReduce boot_live = Inr s' \<and> d_reduce s' = 1 \<and> h_reduce s' = 2
             \<and> hd_reduce s' = 4098 \<and> device_live s' = [(1, 163840)]
             \<and> host_live s' = [(2, 163840)] \<and> device_avail s' = 836160
             \<and> host_avail s' = 836160 \<and> next_ptr s' = 2 \<and> fast_reduce_enabled s')
   \<and> cuda_error (boot_live\<lparr>cuda_error := True\<rparr>)
   \<and> initReduce (boot_live\<lparr>cuda_error := True\<rparr>) = Inl CudaError"
proof -
  have live: "d_reduce boot_live \<noteq> 0" "h_reduce boot_live \<noteq> 0"
    by (simp_all add: boot_live_handles)
  have pending: "d_reduce (boot_live\<lparr>cuda_error := True\<rparr>) \<noteq> 0"
    "h_reduce (boot_live\<lparr>cuda_error := True\<rparr>) \<noteq> 0"
    by (simp_all add: boot_live_handles)
  have state: "device_live boot_live = [(1, 163840)]" "host_live boot_live = [(2, 163840)]"
    "device_avail boot_live = 836160" "host_avail boot_live = 836160" "next_ptr boot_live = 2"
    "fast_reduce_enabled boot_live"
    by (simp_all add: boot_live_def)
  show ?thesis
    using initReduce_while_live [OF live] initReduce_while_live [OF pending] live
    by (simp add: boot_live_handles state)
qed

text \<open>
  C5 as stated fails: on the example process the first \<^verbatim>\<open>initReduce\<close> succeeds and leaves
  both buffers live, and the second one, with no teardown in between, is not fatal.
\<close>

theorem initReduce_twice_not_fatal:
  "initReduce boot = Inr boot_live \<and> d_reduce boot_live \<noteq> 0 \<and> h_reduce boot_live \<noteq> 0
   \<and> \<not> is_fatal (initReduce boot_live)"
  by (simp add: initReduce_boot initReduce_live boot_live_handles checkCudaError_def
      read_fast_reduce_env_keeps cudaEventCreateWithFlags_keeps is_fatal_def)

lemma endReduce_cases:
  "endReduce s =
     cudaEventDestroy (reduceEnd s)
       ((if h_reduce s \<noteq> 0
         then (host_free (h_reduce s)
                 (if d_reduce s \<noteq> 0 then (device_free (d_reduce s) s)\<lparr>d_reduce := 0\<rparr> else s))
              \<lparr>h_reduce := 0\<rparr>
         else (if d_reduce s \<noteq> 0 then (device_free (d_reduce s) s)\<lparr>d_reduce := 0\<rparr> else s))
        \<lparr>hd_reduce := 0\<rparr>)"
  by (simp add: endReduce_def Let_def device_free_def host_free_def)

lemma endReduce_handles:
  "d_reduce (endReduce s) = 0" "h_reduce (endReduce s) = 0" "hd_reduce (endReduce s) = 0"
  by (simp_all add: endReduce_cases device_free_def host_free_def cudaEventDestroy_def)

lemma endReduce_tables:
  "device_live (endReduce s) =
     (if d_reduce s \<noteq> 0 then filter (\<lambda>e. fst e \<noteq> d_reduce s) (device_live s) else device_live s)"
  "host_live (endReduce s) =
     (if h_reduce s \<noteq> 0 then filter (\<lambda>e. fst e \<noteq> h_reduce s) (host_live s) else host_live s)"
  "events (endReduce s) = filter (\<lambda>h. h \<noteq> reduceEnd s) (events s)"
  "reduceEnd (endReduce s) = reduceEnd s"
  "deviceProp (endReduce s) = deviceProp s"
  "MAX_MULTI_BLAS_N (endReduce s) = MAX_MULTI_BLAS_N s"
  "cuda_error (endReduce s) = cuda_error s"
  by (simp_all add: endReduce_cases device_free_def host_free_def cudaEventDestroy_def)

lemma endReduce_device_freed:
  "d_reduce s \<noteq> 0 \<Longrightarrow> d_reduce s \<notin> fst ` set (device_live (endReduce s))"
  by (auto simp add: endReduce_tables)

lemma endReduce_host_freed:
  "h_reduce s \<noteq> 0 \<Longrightarrow> h_reduce s \<notin> fst ` set (host_live (endReduce s))"
  by (auto simp add: endReduce_tables)

lemma endReduce_null:
  assumes "d_reduce s = 0" "h_reduce s = 0"
  shows "endReduce s = s\<lparr>events := filter (\<lambda>h. h \<noteq> reduceEnd s) (events s), hd_reduce := 0\<rparr>"
  using assms by (simp add: endReduce_cases cudaEventDestroy_def)

lemma endReduce_idem: "endReduce (endReduce s) = endReduce s"
proof -
  have "endReduce (endReduce s) =
          (endReduce s)\<lparr>events := filter (\<lambda>h. h \<noteq> reduceEnd (endReduce s)) (events (endReduce s)),
                        hd_reduce := 0\<rparr>"
    by (rule endReduce_null) (simp_all add: endReduce_handles)
  also have "\<dots> = (endReduce s)\<lparr>events := events (endReduce s), hd_reduce := hd_reduce (endReduce s)\<rparr>"
    by (simp add: endReduce_tables endReduce_handles)
  also have "\<dots> = endReduce s"
    by simp
  finally show ?thesis .
qed

lemma endReduce_env:
  "reduce_bytes (endReduce s) = reduce_bytes s" "cuda_error (endReduce s) = cuda_error s"
  by (simp_all add: reduce_bytes_def endReduce_tables)

lemma endReduce_avail:
  "device_avail (endReduce s) =
     (if d_reduce s \<noteq> 0 then device_avail s + live_bytes (d_reduce s) (device_live s)
      else device_avail s)"
  "host_avail (endReduce s) =
     (if h_reduce s \<noteq> 0 then host_avail s + live_bytes (h_reduce s) (host_live s)
      else host_avail s)"
  by (simp_all add: endReduce_cases device_free_def host_free_def cudaEventDestroy_def)

lemma is_fatal_bindE:
  "is_fatal (bindE m f) \<longleftrightarrow> is_fatal m \<or> (\<exists>v. m = Inr v \<and> is_fatal (f v))"
  by (cases m) (simp_all add: is_fatal_def)

lemma is_fatal_checkCudaError: "is_fatal (checkCudaError s) \<longleftrightarrow> cuda_error s"
  by (simp add: checkCudaError_def is_fatal_def)

lemma alloc_d_reduce_fatal:
  assumes "d_reduce s = 0"
  shows "is_fatal (alloc_d_reduce B s) \<longleftrightarrow> device_avail s < B"
  using assms by (simp add: alloc_d_reduce_def device_malloc_def is_fatal_def)

lemma alloc_h_reduce_fatal:
  assumes "h_reduce s = 0"
  shows "is_fatal (alloc_h_reduce B s) \<longleftrightarrow> host_avail s < B"
  using assms
  by (simp add: alloc_h_reduce_def mapped_malloc_def pinned_malloc_def host_malloc_def is_fatal_def)

lemma live_bytes_Cons: "live_bytes p ((p, n) # l) = n + live_bytes p l"
  by (simp add: live_bytes_def)

lemma alloc_d_reduce_fresh:
  assumes "d_reduce s = 0" "alloc_d_reduce B s = Inr s1"
  shows "B \<le> device_avail s \<and> d_reduce s1 = Suc (next_ptr s)
       \<and> device_avail s1 = device_avail s - B
       \<and> device_live s1 = (Suc (next_ptr s), B) # device_live s \<and> h_reduce s1 = h_reduce s
       \<and> host_avail s1 = host_avail s \<and> cuda_error s1 = cuda_error s
       \<and> deviceProp s1 = deviceProp s \<and> MAX_MULTI_BLAS_N s1 = MAX_MULTI_BLAS_N s"
proof -
  have fits: "\<not> device_avail s < B"
    using assms by (simp add: alloc_d_reduce_def device_malloc_def split: if_splits)
  then have "s1 = s\<lparr>device_avail := device_avail s - B,
                     device_live := (Suc (next_ptr s), B) # device_live s,
                     next_ptr := Suc (next_ptr s), d_reduce := Suc (next_ptr s)\<rparr>"
    using assms by (simp add: alloc_d_reduce_def device_malloc_def)
  with fits show ?thesis by simp
qed

lemma alloc_h_reduce_fresh:
  assumes "h_reduce s = 0" "alloc_h_reduce B s = Inr s1"
  shows "B \<le> host_avail s \<and> h_reduce s1 = Suc (next_ptr s) \<and> host_avail s1 = host_avail s - B
       \<and> host_live s1 = (Suc (next_ptr s), B) # host_live s \<and> d_reduce s1 = d_reduce s
       \<and> device_avail s1 = device_avail s \<and> device_live s1 = device_live s
       \<and> cuda_error s1 = cuda_error s
       \<and> deviceProp s1 = deviceProp s \<and> MAX_MULTI_BLAS_N s1 = MAX_MULTI_BLAS_N s"
proof -
  have fits: "\<not> host_avail s < B"
    using assms
    by (simp add: alloc_h_reduce_def mapped_malloc_def pinned_malloc_def host_malloc_def
        split: if_splits)
  then have "\<exists>hd. s1 = s\<lparr>host_avail := host_avail s - B,
                              host_live := (Suc (next_ptr s), B) # host_live s,
                              next_ptr := Suc (next_ptr s), h_reduce := Suc (next_ptr s),
                              hd_reduce := hd\<rparr>"
    using assms
    by (cases "LP64 s \<and> canMapHostMemory (deviceProp s)")
       (auto simp add: alloc_h_reduce_def mapped_malloc_def pinned_malloc_def host_malloc_def)
  then obtain hd where
    "s1 = s\<lparr>host_avail := host_avail s - B,
            host_live := (Suc (next_ptr s), B) # host_live s,
            next_ptr := Suc (next_ptr s), h_reduce := Suc (next_ptr s), hd_reduce := hd\<rparr>"
    by blast
  with fits show ?thesis by simp
qed

text \<open>From null handles, \<^verbatim>\<open>initReduce\<close> fails exactly when a buffer does not fit or an error is pending.\<close>

lemma initReduce_fresh_fatal:
  assumes "d_reduce s = 0" "h_reduce s = 0"
  shows "is_fatal (initReduce s) \<longleftrightarrow>
           device_avail s < reduce_bytes s \<or> host_avail s < reduce_bytes s \<or> cuda_error s"
proof (cases "device_avail s < reduce_bytes s")
  case True
  then have "is_fatal (alloc_d_reduce (reduce_bytes s) s)"
    by (simp add: alloc_d_reduce_fatal assms)
  then show ?thesis
    using True by (simp add: initReduce_def is_fatal_bindE)
next
  case False
  then obtain u where u: "alloc_d_reduce (reduce_bytes s) s = Inr u"
    using alloc_d_reduce_fatal [OF assms(1), of "reduce_bytes s"] not_fatal_Inr by blast
  note du = alloc_d_reduce_fresh [OF assms(1) u]
  have hu: "h_reduce u = 0"
    using du assms by simp
  show ?thesis
  proof (cases "host_avail s < reduce_bytes s")
    case True
    then have "is_fatal (alloc_h_reduce (reduce_bytes s) u)"
      using du by (simp add: alloc_h_reduce_fatal hu)
    then show ?thesis
      using True u by (simp add: initReduce_def is_fatal_bindE)
  next
    case room: False
    then have "\<not> is_fatal (alloc_h_reduce (reduce_bytes s) u)"
      using du by (simp add: alloc_h_reduce_fatal hu)
    then obtain v where v: "alloc_h_reduce (reduce_bytes s) u = Inr v"
      using not_fatal_Inr by blast
    note hv = alloc_h_reduce_fresh [OF hu v]
    have "cuda_error v = cuda_error s"
      using du hv by simp
    then show ?thesis
      using False room u v
      by (simp add: initReduce_def is_fatal_checkCudaError read_fast_reduce_env_keeps
          cudaEventCreateWithFlags_keeps)
  qed
qed

text \<open>Teardown gives back at least what the preceding \<^verbatim>\<open>initReduce\<close> took.\<close>

lemma initReduce_then_endReduce:
  assumes fresh: "d_reduce s = 0" "h_reduce s = 0" and ok: "initReduce s = Inr s1"
  shows "device_avail s \<le> device_avail (endReduce s1) \<and> host_avail s \<le> host_avail (endReduce s1)
         \<and> cuda_error s1 = cuda_error s \<and> reduce_bytes s1 = reduce_bytes s"
proof -
  from ok obtain u v where
    u: "alloc_d_reduce (reduce_bytes s) s = Inr u" and
    v: "alloc_h_reduce (reduce_bytes s) u = Inr v" and
    s1: "checkCudaError (read_fast_reduce_env (cudaEventCreateWithFlags v)) = Inr s1"
    unfolding initReduce_def bindE_Inr by blast
  note du = alloc_d_reduce_fresh [OF fresh(1) u]
  have "h_reduce u = 0" using du fresh by simp
  note hv = alloc_h_reduce_fresh [OF this v]
  have s1_eq: "s1 = read_fast_reduce_env (cudaEventCreateWithFlags v)"
    using s1 by (simp add: checkCudaError_def split: if_splits)
  have "device_avail s \<le> device_avail (endReduce s1)"
    using du hv
    by (simp add: s1_eq endReduce_avail read_fast_reduce_env_keeps cudaEventCreateWithFlags_keeps
        live_bytes_Cons)
  moreover have "host_avail s \<le> host_avail (endReduce s1)"
    using du hv
    by (simp add: s1_eq endReduce_avail read_fast_reduce_env_keeps cudaEventCreateWithFlags_keeps
        live_bytes_Cons)
  moreover have "cuda_error s1 = cuda_error s"
    using du hv by (simp add: s1_eq read_fast_reduce_env_keeps cudaEventCreateWithFlags_keeps)
  moreover have "reduce_bytes s1 = reduce_bytes s"
    using du hv
    by (simp add: s1_eq reduce_bytes_def read_fast_reduce_env_keeps cudaEventCreateWithFlags_keeps)
  ultimately show ?thesis by simp
qed

lemma initReduce_restart:
  assumes fresh: "d_reduce s = 0" "h_reduce s = 0" and ok: "initReduce s = Inr s1"
  shows "\<exists>s3. initReduce (endReduce s1) = Inr s3"
proof -
  have "\<not> is_fatal (initReduce s)"
    using ok by (simp add: is_fatal_def)
  then have room: "reduce_bytes s \<le> device_avail s" "reduce_bytes s \<le> host_avail s"
    "\<not> cuda_error s"
    using initReduce_fresh_fatal [OF fresh] by auto
  have after: "device_avail s \<le> device_avail (endReduce s1)"
    "host_avail s \<le> host_avail (endReduce s1)"
    "cuda_error s1 = cuda_error s" "reduce_bytes s1 = reduce_bytes s"
    using initReduce_then_endReduce [OF fresh ok] by auto
  have "\<not> is_fatal (initReduce (endReduce s1))"
    using room after
    by (simp add: initReduce_fresh_fatal endReduce_handles endReduce_env)
  then show ?thesis by (rule not_fatal_Inr)
qed

text \<open>
  C6: \<^verbatim>\<open>endReduce\<close> leaves the device, host and device-alias handles null and the buffers
  they pointed to are no longer allocated; a second \<^verbatim>\<open>endReduce\<close> changes nothing and has
  no error to report; and after an \<^verbatim>\<open>initReduce\<close> that succeeded from null handles, teardown
  followed by \<^verbatim>\<open>initReduce\<close> succeeds again and the following teardown leaves the handles
  null once more (\<^verbatim>\<open>init(); teardown(); init(); teardown()\<close>).
\<close>

theorem endReduce_restart:
  "d_reduce (endReduce s) = 0 \<and> h_reduce (endReduce s) = 0 \<and> hd_reduce (endReduce s) = 0
   \<and> (d_reduce s \<noteq> 0 \<longrightarrow> d_reduce s \<notin> fst ` set (device_live (endReduce s)))
   \<and> (h_reduce s \<noteq> 0 \<longrightarrow> h_reduce s \<notin> fst ` set (host_live (endReduce s)))
   \<and> endReduce (endReduce s) = endReduce s
   \<and> (d_reduce s = 0 \<and> h_reduce s = 0 \<longrightarrow>
        (\<forall>s1. initReduce s = Inr s1 \<longrightarrow>
           (\<exists>s3. initReduce (endReduce s1) = Inr s3
                 \<and> d_reduce (endReduce s3) = 0 \<and> h_reduce (endReduce s3) = 0
                 \<and> hd_reduce (endReduce s3) = 0)))"
  using endReduce_device_freed [of s] endReduce_host_freed [of s] initReduce_restart [of s]
  by (simp add: endReduce_handles endReduce_idem)

theorem endReduce_restart_witness:
  "d_reduce boot = 0 \<and> h_reduce boot = 0 \<and> initReduce boot = Inr boot_live
   \<and> (\<exists>s3. initReduce (endReduce boot_live) = Inr s3
            \<and> d_reduce (endReduce s3) = 0 \<and> h_reduce (endReduce s3) = 0
            \<and> hd_reduce (endReduce s3) = 0)
   \<and> d_reduce boot_live \<noteq> 0 \<and> h_reduce boot_live \<noteq> 0
   \<and> d_reduce boot_live \<notin> fst ` set (device_live (endReduce boot_live))
   \<and> h_reduce boot_live \<notin> fst ` set (host_live (endReduce boot_live))
   \<and> endReduce (endReduce boot_live) = endReduce boot_live"
  using endReduce_restart [of boot] endReduce_restart [of boot_live]
  by (simp add: initReduce_boot boot_live_handles)

section \<open>Properties of the dispatcher and the entry points\<close>

text \<open>
  Every \<^verbatim>\<open>float4\<close> overload accumulates what the two-component helper accumulates on the
  pair \<open>(x, y)\<close> and then on the pair \<open>(z, w)\<close>: an array of \<^verbatim>\<open>float4\<close> reduces like the array
  of its pairs.
\<close>

lemma float4_as_pairs:
  "norm1_fn4 a = norm1_fn (lo a) + norm1_fn (hi a)"
  "norm2_fn4 acc a = norm2_fn (norm2_fn acc (lo a)) (hi a)"
  "dot_fn4 acc a b = dot_fn (dot_fn acc (lo a) (lo b)) (hi a) (hi b)"
  "cdot_fn4 acc2 a b = cdot_fn (cdot_fn acc2 (lo a) (lo b)) (hi a) (hi b)"
  by (simp_all add: norm1_fn4_def norm2_fn4_def dot_fn4_def cdot_fn4_def norm1_fn_def norm2_fn_def
      dot_fn_def cdot_fn_def lo_def hi_def)

lemma checkSpinor_refl [simp]: "checkSpinor x x = Inr ()"
  by (simp add: checkSpinor_def)

lemma checkSpinor_Inr:
  "checkSpinor x y = Inr u \<longleftrightarrow> Precision x = Precision y \<and> Length x = Length y \<and> Stride x = Stride y"
  by (simp add: checkSpinor_def)


lemma checkSpinor_trans: "checkSpinor x y = Inr () \<Longrightarrow> checkSpinor x z = Inr () \<Longrightarrow> checkSpinor y z = Inr ()"
  by (simp add: checkSpinor_Inr)

lemma mapE_total: "(\<And>st. f st = Inr (g st)) \<Longrightarrow> mapE f W = Inr (map g W)"
  by (induction W) simp_all

lemma for_loopE_total: "(\<And>i s. body i s = Inr (g i s)) \<Longrightarrow> for_loopE n body s = Inr (for_loop n g s)"
  by (induction n) simp_all

lemma site_step_simple:
  assumes "pre r = ReduceFunctor_pre" "post r = ReduceFunctor_post"
  shows "site_step r fl fs (Suc 0) i s = Inr (elem_step r fl fs i s)"
  using assms
  by (cases s) (simp add: site_step_def ReduceFunctor_pre_def ReduceFunctor_post_def split: prod.splits)

lemma reduce_kernel_simple:
  assumes "pre r = ReduceFunctor_pre" "post r = ReduceFunctor_post"
  shows "reduce_kernel r fl fs (Suc 0) n st =
           Inr (snd (for_loop n (elem_step r fl fs) (member r, 0, st)))"
  unfolding reduce_kernel_def
  by (simp add: for_loopE_total [where g = "elem_step r fl fs"] site_step_simple [OF assms]
      split: prod.splits)

text \<open>What \<^verbatim>\<open>reduceCuda\<close> returns once the kernel of one process is known in closed form.\<close>

lemma reduceCuda_simple:
  assumes hooks: "pre (R a b) = ReduceFunctor_pre" "post (R a b) = ReduceFunctor_post"
    and checks: "checkSpinor x y = Inr ()" "checkSpinor x z = Inr ()" "checkSpinor x w = Inr ()"
      "checkSpinor x v = Inr ()"
    and loop: "\<And>st. for_loop (Length x div 2) (elem_step (R a b) fl (x, y, z, w, v)) (member (R a b), 0, st)
                 = (m st, val st, upd st)"
  shows "reduceCuda R fl False a b x y z w v W = Inr (sum_list (map val W), map upd W)"
proof -
  have "mapE (reduce_kernel (R a b) fl (x, y, z, w, v) (Suc 0) (Length x div 2)) W
          = Inr (map (\<lambda>st. (val st, upd st)) W)"
    by (rule mapE_total) (simp add: reduce_kernel_simple [OF hooks] loop)
  then show ?thesis
    by (simp add: reduceCuda_def checks site_elems_def num_sites_def comm_allreduce_def o_def)
qed

lemma save_False [simp]: "save False f k val st = st"
  by (simp add: save_def)

lemma norm2_fn_sqnorm: "norm2_fn acc a = acc + sqnorm a"
  by (simp add: norm2_fn_def sqnorm_def)

lemma dot_fn_redot: "dot_fn acc a b = acc + redot a b"
  by (simp add: dot_fn_def redot_def)

lemma Norm1_loop:
  "for_loop n (elem_step (Norm1 a b) (False, False, False, False, False) (x, y, z, w, v)) (m, acc, st)
     = (m, acc + (\<Sum>k<n. norm1_fn (st (addr x) k)), st)"
  by (induction n) (simp_all add: elem_step_def Norm1_def load_def)

lemma Norm2_loop:
  "for_loop n (elem_step (Norm2 a b) (False, False, False, False, False) (x, y, z, w, v)) (m, acc, st)
     = (m, acc + (\<Sum>k<n. sqnorm (st (addr x) k)), st)"
  by (induction n) (simp_all add: elem_step_def Norm2_def load_def norm2_fn_sqnorm)

lemma Dot_loop:
  "for_loop n (elem_step (Dot a b) (False, False, False, False, False) (x, y, z, w, v)) (m, acc, st)
     = (m, acc + (\<Sum>k<n. redot (st (addr x) k) (st (addr y) k)), st)"
  by (induction n) (simp_all add: elem_step_def Dot_def load_def dot_fn_redot)

lemma Cdot_loop:
  "for_loop n (elem_step (Cdot a b) (False, False, False, False, False) (x, y, z, w, v)) (m, acc, st)
     = (m, make_double2 (x2 acc + (\<Sum>k<n. redot (st (addr x) k) (st (addr y) k)))
                        (y2 acc + (\<Sum>k<n. imdot (st (addr x) k) (st (addr y) k))), st)"
  by (induction n) (simp_all add: elem_step_def Cdot_def load_def cdot_fn_def redot_def imdot_def)

lemma quadrupleCGReduction_loop:
  "for_loop n (elem_step (quadrupleCGReduction_functor a b) (False, False, False, False, False)
       (x, y, z, w, v)) (m, acc, st)
     = (m, make_double4 (x4 acc + (\<Sum>k<n. sqnorm (st (addr x) k)))
                        (y4 acc + (\<Sum>k<n. sqnorm (st (addr y) k)))
                        (z4 acc + (\<Sum>k<n. redot (st (addr y) k) (st (addr z) k)))
                        (w4 acc + (\<Sum>k<n. sqnorm (st (addr w) k))), st)"
  by (induction n)
     (simp_all add: elem_step_def quadrupleCGReduction_functor_def load_def norm2_fn_sqnorm dot_fn_redot)

lemma Norm1_hooks [simp]:
  "pre (Norm1 a b) = ReduceFunctor_pre" "post (Norm1 a b) = ReduceFunctor_post"
  by (simp_all add: Norm1_def)

lemma Norm2_hooks [simp]:
  "pre (Norm2 a b) = ReduceFunctor_pre" "post (Norm2 a b) = ReduceFunctor_post"
  by (simp_all add: Norm2_def)

lemma Dot_hooks [simp]:
  "pre (Dot a b) = ReduceFunctor_pre" "post (Dot a b) = ReduceFunctor_post"
  by (simp_all add: Dot_def)

lemma Cdot_hooks [simp]:
  "pre (Cdot a b) = ReduceFunctor_pre" "post (Cdot a b) = ReduceFunctor_post"
  by (simp_all add: Cdot_def)

lemma axpbyzNorm2_hooks [simp]:
  "pre (axpbyzNorm2 a b) = ReduceFunctor_pre" "post (axpbyzNorm2 a b) = ReduceFunctor_post"
  by (simp_all add: axpbyzNorm2_def)

lemma quadrupleCGReduction_hooks [simp]:
  "pre (quadrupleCGReduction_functor a b) = ReduceFunctor_pre"
  "post (quadrupleCGReduction_functor a b) = ReduceFunctor_post"
  by (simp_all add: quadrupleCGReduction_functor_def)

lemma sum_list_make_double2:
  "sum_list (map (\<lambda>st. make_double2 (f st) (g st)) W)
     = make_double2 (sum_list (map f W)) (sum_list (map g W))"
  by (induction W) (simp_all add: zero_double2_def plus_double2_def)

lemma sum_list_make_double4:
  "sum_list (map (\<lambda>st. make_double4 (f st) (g st) (h st) (j st)) W)
     = make_double4 (sum_list (map f W)) (sum_list (map g W))
                    (sum_list (map h W)) (sum_list (map j W))"
  by (induction W) (simp_all add: zero_double4_def plus_double4_def)

lemma norm1_closed:
  "norm1 x W = Inr (sum_list (map (\<lambda>st. \<Sum>k<Length x div 2. norm1_fn (st (addr x) k)) W), W)"
  unfolding norm1_def Let_def
  by (subst reduceCuda_simple [where upd = "\<lambda>st. st"]) (simp_all add: Norm1_loop)

lemma norm2_closed:
  "norm2 x W = Inr (sum_list (map (\<lambda>st. \<Sum>k<Length x div 2. sqnorm (st (addr x) k)) W), W)"
  unfolding norm2_def Let_def
  by (subst reduceCuda_simple [where upd = "\<lambda>st. st"]) (simp_all add: Norm2_loop)

lemma reDotProduct_closed:
  assumes "checkSpinor x y = Inr ()"
  shows "reDotProduct x y W =
     Inr (sum_list (map (\<lambda>st. \<Sum>k<Length x div 2. redot (st (addr x) k) (st (addr y) k)) W), W)"
  unfolding reDotProduct_def
  by (subst reduceCuda_simple [where upd = "\<lambda>st. st"]) (simp_all add: Dot_loop assms)

lemma cDotProduct_closed:
  assumes "checkSpinor x y = Inr ()"
  shows "cDotProduct x y W =
     Inr (Complex (sum_list (map (\<lambda>st. \<Sum>k<Length x div 2. redot (st (addr x) k) (st (addr y) k)) W))
                  (sum_list (map (\<lambda>st. \<Sum>k<Length x div 2. imdot (st (addr x) k) (st (addr y) k)) W)), W)"
proof -
  have "reduceCuda Cdot (False, False, False, False, False) False
          (make_double2 0 0) (make_double2 0 0) x y x x x W
        = Inr (sum_list (map (\<lambda>st. make_double2
                   (\<Sum>k<Length x div 2. redot (st (addr x) k) (st (addr y) k))
                   (\<Sum>k<Length x div 2. imdot (st (addr x) k) (st (addr y) k))) W),
               map (\<lambda>st. st) W)"
    by (rule reduceCuda_simple) (simp_all add: Cdot_loop assms zero_double2_def)
  then show ?thesis
    by (simp add: cDotProduct_def sum_list_make_double2)
qed

lemma quadrupleCGReduction_closed:
  assumes "checkSpinor x y = Inr ()" "checkSpinor x z = Inr ()"
  shows "quadrupleCGReduction x y z W =
     Inr (make_double4
            (sum_list (map (\<lambda>st. \<Sum>k<Length x div 2. sqnorm (st (addr x) k)) W))
            (sum_list (map (\<lambda>st. \<Sum>k<Length x div 2. sqnorm (st (addr y) k)) W))
            (sum_list (map (\<lambda>st. \<Sum>k<Length x div 2. redot (st (addr y) k) (st (addr z) k)) W))
            (sum_list (map (\<lambda>st. \<Sum>k<Length x div 2. sqnorm (st (addr x) k)) W)), W)"
proof -
  have "reduceCuda quadrupleCGReduction_functor (False, False, False, False, False) False
          (make_double2 0 0) (make_double2 0 0) x y z x x W
        = Inr (sum_list (map (\<lambda>st. make_double4
                   (\<Sum>k<Length x div 2. sqnorm (st (addr x) k))
                   (\<Sum>k<Length x div 2. sqnorm (st (addr y) k))
                   (\<Sum>k<Length x div 2. redot (st (addr y) k) (st (addr z) k))
                   (\<Sum>k<Length x div 2. sqnorm (st (addr x) k))) W),
               map (\<lambda>st. st) W)"
    by (rule reduceCuda_simple) (simp_all add: quadrupleCGReduction_loop assms zero_double4_def)
  then show ?thesis
    by (simp add: quadrupleCGReduction_def sum_list_make_double4)
qed

text \<open>
  C3: for every field \<open>x\<close> and every run, \<^verbatim>\<open>norm2(x)\<close> and \<^verbatim>\<open>reDotProduct(x, x)\<close> return the
  same result (value and memory, exactly); and on any element the \<^verbatim>\<open>Norm2\<close> functor
  adds to the sum what the \<^verbatim>\<open>Dot\<close> functor adds when both of its operands are that
  element.
\<close>

theorem norm2_eq_reDotProduct: 
  "norm2 x W = reDotProduct x x W
   \<and> fst (snd (call (Norm2 a b) m acc (p, q, z, w, v))) = fst (snd (call (Dot a' b') m' acc (p, p, z', w', v')))"
  by (simp add: norm2_closed reDotProduct_closed sqnorm_def redot_def Norm2_def Dot_def norm2_fn_def dot_fn_def)




text \<open>In double arithmetic: the values of \<open>round_double\<close> that the example below meets.\<close>

lemma round_half_even_int [simp]: "round_half_even (of_int j) = j"
  by (simp add: round_half_even_def)







text \<open>With all five write flags clear no functor can change the memory.\<close>

lemma elem_step_no_write:
  "snd (snd (elem_step r (False, False, False, False, False) fs k s)) = snd (snd s)"
  by (cases fs; cases s) (simp add: elem_step_def split: prod.splits)

lemma for_loop_no_write:
  "snd (snd (for_loop M (\<lambda>j. elem_step r (False, False, False, False, False) fs (g j)) s)) = snd (snd s)"
  by (induction M) (simp_all add: elem_step_no_write)

lemma site_step_no_write:
  assumes "site_step r (False, False, False, False, False) fs M i s = Inr s'"
  shows "snd (snd s') = snd (snd s)"
proof -
  obtain m acc st where s: "s = (m, acc, st)"
    by (cases s) auto
  obtain m' acc' st' where loop:
    "for_loop M (\<lambda>j. elem_step r (False, False, False, False, False) fs (i * M + j)) (pre r m, acc, st)
       = (m', acc', st')"
    by (cases "for_loop M (\<lambda>j. elem_step r (False, False, False, False, False) fs (i * M + j))
                 (pre r m, acc, st)") auto
  have "st' = st"
    using for_loop_no_write [of M r fs "\<lambda>j. i * M + j" "(pre r m, acc, st)"] loop by simp
  with assms s loop show ?thesis
    by (auto simp add: site_step_def bindE_Inr)
qed

lemma for_loopE_no_write:
  "for_loopE n (site_step r (False, False, False, False, False) fs M) s = Inr s'
     \<Longrightarrow> snd (snd s') = snd (snd s)"
proof (induction n arbitrary: s')
  case 0
  then show ?case by simp
next
  case (Suc n)
  then obtain u where u: "for_loopE n (site_step r (False, False, False, False, False) fs M) s = Inr u"
    and s': "site_step r (False, False, False, False, False) fs M n u = Inr s'"
    by (auto simp add: bindE_Inr)
  from Suc.IH [OF u] site_step_no_write [OF s'] show ?case by simp
qed

lemma reduce_kernel_no_write:
  assumes "reduce_kernel r (False, False, False, False, False) fs M n st = Inr q"
  shows "snd q = st"
  using assms for_loopE_no_write [of n r fs M "(member r, 0, st)"]
  by (auto simp add: reduce_kernel_def bindE_Inr)

lemma mapE_snd:
  assumes "\<And>st q. f st = Inr q \<Longrightarrow> snd q = st"
  shows "mapE f W = Inr qs \<Longrightarrow> map snd qs = W"
proof (induction W arbitrary: qs)
  case Nil
  then show ?case by simp
next
  case (Cons st W)
  then obtain q rest where "f st = Inr q" "mapE f W = Inr rest" "qs = q # rest"
    by (auto simp add: bindE_Inr)
  with Cons.IH assms show ?case by simp
qed

lemma reduceCuda_no_write:
  assumes "reduceCuda R (False, False, False, False, False) siteUnroll a b x y z w v W = Inr (val, W')"
  shows "W' = W"
proof -
  from assms obtain locals where
    locals: "mapE (reduce_kernel (R a b) (False, False, False, False, False) (x, y, z, w, v)
               (site_elems siteUnroll x) (num_sites siteUnroll x)) W = Inr locals"
    and W': "W' = map snd locals"
    by (auto simp add: reduceCuda_def bindE_Inr)
  from mapE_snd [OF reduce_kernel_no_write locals] W' show ?thesis by simp
qed

text \<open>
  C9: \<^verbatim>\<open>norm1\<close>, \<^verbatim>\<open>norm2\<close>, \<^verbatim>\<open>reDotProduct\<close> and \<^verbatim>\<open>cDotProduct\<close> dispatch with all five
  write flags clear, and when they return, the memory of every process is what it was
  before the call: no operand is changed.
\<close>

theorem pure_reductions_write_nothing:
  "norm1 x W = reduceCuda Norm1 (False, False, False, False, False) False
                 (make_double2 0 0) (make_double2 0 0) x x x x x W
   \<and> norm2 x W = reduceCuda Norm2 (False, False, False, False, False) False
                 (make_double2 0 0) (make_double2 0 0) x x x x x W
   \<and> reDotProduct x y W = reduceCuda Dot (False, False, False, False, False) False
                 (make_double2 0 0) (make_double2 0 0) x y x x x W
   \<and> (\<forall>c W'. cDotProduct x y W = Inr (c, W') \<longrightarrow>
         (\<exists>cdot. reduceCuda Cdot (False, False, False, False, False) False
                 (make_double2 0 0) (make_double2 0 0) x y x x x W = Inr (cdot, W')))
   \<and> (\<forall>val W'. norm1 x W = Inr (val, W') \<longrightarrow> W' = W)
   \<and> (\<forall>val W'. norm2 x W = Inr (val, W') \<longrightarrow> W' = W)
   \<and> (\<forall>val W'. reDotProduct x y W = Inr (val, W') \<longrightarrow> W' = W)
   \<and> (\<forall>c W'. cDotProduct x y W = Inr (c, W') \<longrightarrow> W' = W)"
proof -
  have dispatch: "\<exists>cdot. reduceCuda Cdot (False, False, False, False, False) False
                 (make_double2 0 0) (make_double2 0 0) x y x x x W = Inr (cdot, W')"
    if "cDotProduct x y W = Inr (c, W')" for c W'
    using that by (auto simp add: cDotProduct_def bindE_Inr)
  have n1: "W' = W" if "norm1 x W = Inr (val, W')" for val W'
    using that unfolding norm1_def Let_def by (rule reduceCuda_no_write)
  have n2: "W' = W" if "norm2 x W = Inr (val, W')" for val W'
    using that unfolding norm2_def Let_def by (rule reduceCuda_no_write)
  have rd: "W' = W" if "reDotProduct x y W = Inr (val, W')" for val W'
    using that unfolding reDotProduct_def by (rule reduceCuda_no_write)
  have cd: "W' = W" if "cDotProduct x y W = Inr (c, W')" for c W'
    using dispatch [OF that] reduceCuda_no_write by blast
  have defs: "norm1 x W = reduceCuda Norm1 (False, False, False, False, False) False
                 (make_double2 0 0) (make_double2 0 0) x x x x x W"
    "norm2 x W = reduceCuda Norm2 (False, False, False, False, False) False
                 (make_double2 0 0) (make_double2 0 0) x x x x x W"
    "reDotProduct x y W = reduceCuda Dot (False, False, False, False, False) False
                 (make_double2 0 0) (make_double2 0 0) x y x x x W"
    by (simp_all add: norm1_def norm2_def reDotProduct_def Let_def)
  from defs dispatch n1 n2 rd cd show ?thesis
    by blast
qed

text \<open>
  C7: the quadruple CG reduction returns \<open>{norm2(x), norm2(y), dot(y,z), norm2(w)}\<close>, where
  \<open>w\<close> is whatever field is bound to the fourth operand slot of the dispatcher; the entry
  point \<^verbatim>\<open>quadrupleCGReduction(x, y, z)\<close> binds that slot to \<open>x\<close>, so its fourth component
  is the squared norm of \<open>x\<close>.
\<close>

theorem quadrupleCGReduction_components:
  assumes "checkSpinor x y = Inr ()" "checkSpinor x z = Inr ()"
    and "checkSpinor x w = Inr ()" "checkSpinor x v = Inr ()"
  shows "\<exists>nx ny dyz nw.
           norm2 x W = Inr (nx, W) \<and> norm2 y W = Inr (ny, W)
         \<and> reDotProduct y z W = Inr (dyz, W) \<and> norm2 w W = Inr (nw, W)
         \<and> reduceCuda quadrupleCGReduction_functor (False, False, False, False, False) False
               (make_double2 0 0) (make_double2 0 0) x y z w v W
             = Inr (make_double4 nx ny dyz nw, W)
         \<and> quadrupleCGReduction x y z W = Inr (make_double4 nx ny dyz nx, W)"
proof -
  have len: "Length y = Length x" "Length w = Length x"
    using assms by (simp_all add: checkSpinor_Inr)
  have yz: "checkSpinor y z = Inr ()"
    using assms checkSpinor_trans by blast
  have "reduceCuda quadrupleCGReduction_functor (False, False, False, False, False) False
          (make_double2 0 0) (make_double2 0 0) x y z w v W
        = Inr (sum_list (map (\<lambda>st. make_double4
                   (\<Sum>k<Length x div 2. sqnorm (st (addr x) k))
                   (\<Sum>k<Length x div 2. sqnorm (st (addr y) k))
                   (\<Sum>k<Length x div 2. redot (st (addr y) k) (st (addr z) k))
                   (\<Sum>k<Length x div 2. sqnorm (st (addr w) k))) W),
               map (\<lambda>st. st) W)"
    by (rule reduceCuda_simple) (simp_all add: quadrupleCGReduction_loop assms zero_double4_def)
  then show ?thesis
    by (simp add: norm2_closed reDotProduct_closed [OF yz] quadrupleCGReduction_closed assms len
        sum_list_make_double4)
qed

lemma axpbyzNorm2_loop:
  "for_loop n (elem_step (axpbyzNorm2 (make_double2 a a') (make_double2 b b')) (False, False, True, False, False)
       (x, y, z, w, v)) (m, acc, st)
     = (m, acc + (\<Sum>k<n. sqnorm (smul a (st (addr x) k) + smul b (st (addr y) k))),
        st(addr z := (\<lambda>k. if k < n then smul a (st (addr x) k) + smul b (st (addr y) k)
                              else st (addr z) k)))"
proof (induction n)
  case 0
  then show ?case by simp
next
  case (Suc n)
  let ?g = "\<lambda>k. if k < n then smul a (st (addr x) k) + smul b (st (addr y) k) else st (addr z) k"
  have ld: "load (st(addr z := ?g)) f n = st (addr f) n" for f
    by (simp add: load_def)
  have upd: "(st(addr z := ?g))(addr z := ((st(addr z := ?g)) (addr z))(n := val))
        = st(addr z := (\<lambda>k. if k < Suc n then (if k = n then val else ?g k) else st (addr z) k))" for val
    by (rule ext) (auto simp add: fun_eq_iff)
  show ?case
    unfolding for_loop.simps Suc.IH
    by (simp add: elem_step_def axpbyzNorm2_def ld save_def Let_def norm2_fn_sqnorm upd fun_eq_iff less_Suc_eq)
qed

lemma axpbyzNorm_closed:
  assumes "checkSpinor x y = Inr ()" "checkSpinor x z = Inr ()"
  shows "axpbyzNorm a x b y z W =
     Inr (sum_list (map (\<lambda>st. \<Sum>k<Length x div 2.
                                 sqnorm (smul a (st (addr x) k) + smul b (st (addr y) k))) W),
          map (axpbyz_store a x b y z) W)"
proof -
  have len: "Length z = Length x"
    using assms by (simp add: checkSpinor_Inr)
  show ?thesis
    unfolding axpbyzNorm_def
    by (rule reduceCuda_simple) (simp_all add: assms axpbyzNorm2_loop axpbyz_store_def len)
qed

text \<open>
  C2 (as the code has it): for compatible fields \<open>x\<close>, \<open>y\<close>, \<open>z\<close>, of which \<open>z\<close> may be the
  same field as \<open>x\<close> or \<open>y\<close>, \<^verbatim>\<open>axpbyzNorm(a, x, b, y, z)\<close> leaves in every element of \<open>z\<close>
  the value \<open>a\<cdot>x[i] + b\<cdot>y[i]\<close> computed from the contents of \<open>x\<close> and \<open>y\<close> before the call,
  changes nothing but the elements of \<open>z\<close> (so \<open>x\<close> and \<open>y\<close> are unchanged when they are
  fields other than \<open>z\<close>), and returns what \<^verbatim>\<open>norm2\<close> then computes on the resulting \<open>z\<close>.
\<close>

theorem axpbyzNorm_update_and_norm:
  assumes "checkSpinor x y = Inr ()" and "checkSpinor x z = Inr ()"
  shows "\<exists>r. axpbyzNorm a x b y z W = Inr (r, map (axpbyz_store a x b y z) W)
            \<and> norm2 z (map (axpbyz_store a x b y z) W) = Inr (r, map (axpbyz_store a x b y z) W)
            \<and> (\<forall>st k. k < Length z div 2 \<longrightarrow>
                  axpbyz_store a x b y z st (addr z) k = smul a (st (addr x) k) + smul b (st (addr y) k))
            \<and> (\<forall>st p. p \<noteq> addr z \<longrightarrow> axpbyz_store a x b y z st p = st p)"
proof -
  let ?S = "axpbyz_store a x b y z"
  let ?r = "sum_list (map (\<lambda>st. \<Sum>k<Length x div 2.
                                 sqnorm (smul a (st (addr x) k) + smul b (st (addr y) k))) W)"
  have len: "Length z = Length x"
    using assms by (simp add: checkSpinor_Inr)
  have call: "axpbyzNorm a x b y z W = Inr (?r, map ?S W)"
    by (rule axpbyzNorm_closed [OF assms])
  have elems: "(\<Sum>k<Length z div 2. sqnorm (?S st (addr z) k))
          = (\<Sum>k<Length x div 2. sqnorm (smul a (st (addr x) k) + smul b (st (addr y) k)))" for st
    by (simp add: axpbyz_store_def len)
  have "norm2 z (map ?S W) = Inr (?r, map ?S W)"
    by (simp add: norm2_closed o_def elems)
  moreover have "\<forall>st k. k < Length z div 2 \<longrightarrow>
      ?S st (addr z) k = smul a (st (addr x) k) + smul b (st (addr y) k)"
    by (simp add: axpbyz_store_def)
  moreover have "\<forall>st p. p \<noteq> addr z \<longrightarrow> ?S st p = st p"
    by (simp add: axpbyz_store_def)
  ultimately show ?thesis
    using call by blast
qed

lemma HeavyQuarkResidualNorm_post_Inr:
  "HeavyQuarkResidualNorm_post aux acc
     = Inr (make_double3 (x3 acc + x3 aux) (y3 acc + y3 aux) (z3 acc + hq_ratio (x3 aux) (y3 aux)))"
  by (simp add: HeavyQuarkResidualNorm_post_def hq_ratio_def fdiv_def)

lemma xpyHeavyQuarkResidualNorm_post_Inr:
  "xpyHeavyQuarkResidualNorm_post aux acc
     = Inr (make_double3 (x3 acc + x3 aux) (y3 acc + y3 aux) (z3 acc + hq_ratio (x3 aux) (y3 aux)))"
  by (simp add: xpyHeavyQuarkResidualNorm_post_def hq_ratio_def fdiv_def)

lemma for_loopE_not_fatal:
  assumes "\<And>i s. \<not> is_fatal (body i s)"
  shows "\<not> is_fatal (for_loopE n body s)"
  by (induction n) (simp_all add: is_fatal_bindE assms, simp add: is_fatal_def)

lemma site_step_not_fatal:
  assumes "\<And>m acc. \<not> is_fatal (post r m acc)"
  shows "\<not> is_fatal (site_step r fl fs M i s)"
proof -
  obtain m acc st where s: "s = (m, acc, st)"
    by (cases s) auto
  obtain m' acc' st' where
    "for_loop M (\<lambda>j. elem_step r fl fs (i * M + j)) (pre r m, acc, st) = (m', acc', st')"
    by (cases "for_loop M (\<lambda>j. elem_step r fl fs (i * M + j)) (pre r m, acc, st)") auto
  then show ?thesis
    using assms [of m' acc'] by (simp add: site_step_def s is_fatal_bindE) (simp add: is_fatal_def)
qed

lemma reduce_kernel_not_fatal:
  assumes "\<And>m acc. \<not> is_fatal (post r m acc)"
  shows "\<not> is_fatal (reduce_kernel r fl fs M n st)"
  using for_loopE_not_fatal [of "site_step r fl fs M" n "(member r, 0, st)"]
    site_step_not_fatal [of r, OF assms]
  by (auto simp add: reduce_kernel_def is_fatal_bindE) (simp add: is_fatal_def)

text \<open>
  C10: in both heavy-quark functors \<^verbatim>\<open>post()\<close> divides by \<^verbatim>\<open>aux.x\<close> only when it is strictly
  positive and adds the constant \<open>1\<close> otherwise, in particular when \<^verbatim>\<open>aux.x\<close> is zero; so
  \<^verbatim>\<open>post()\<close> never meets a zero divisor: it returns a sum for every \<^verbatim>\<open>aux\<close> and every sum.
\<close>

theorem heavy_quark_post_never_divides_by_zero:
  "HeavyQuarkResidualNorm_post aux acc
     = Inr (make_double3 (x3 acc + x3 aux) (y3 acc + y3 aux)
              (z3 acc + (if x3 aux > 0 then y3 aux / x3 aux else 1)))
   \<and> xpyHeavyQuarkResidualNorm_post aux acc
     = Inr (make_double3 (x3 acc + x3 aux) (y3 acc + y3 aux)
              (z3 acc + (if x3 aux > 0 then y3 aux / x3 aux else 1)))
   \<and> HeavyQuarkResidualNorm_post (make_double3 0 sr az) acc
     = Inr (make_double3 (x3 acc) (y3 acc + sr) (z3 acc + 1))
   \<and> xpyHeavyQuarkResidualNorm_post (make_double3 0 sr az) acc
     = Inr (make_double3 (x3 acc) (y3 acc + sr) (z3 acc + 1))
   \<and> \<not> is_fatal (HeavyQuarkResidualNorm_post aux acc)
   \<and> \<not> is_fatal (xpyHeavyQuarkResidualNorm_post aux acc)"
  by (simp add: HeavyQuarkResidualNorm_post_def xpyHeavyQuarkResidualNorm_post_def fdiv_def
      is_fatal_def)

text \<open>Hence the kernel of either functor never fails, on any memory and for any operands.\<close>

lemma heavy_quark_kernel_never_fails:
  "\<not> is_fatal (reduce_kernel (HeavyQuarkResidualNorm_functor a b) fl fs M n st)"
  "\<not> is_fatal (reduce_kernel (xpyHeavyQuarkResidualNorm_functor a b) fl fs M n st)"
proof -
  show "\<not> is_fatal (reduce_kernel (HeavyQuarkResidualNorm_functor a b) fl fs M n st)"
    by (rule reduce_kernel_not_fatal)
       (simp add: HeavyQuarkResidualNorm_functor_def HeavyQuarkResidualNorm_post_Inr is_fatal_def)
  show "\<not> is_fatal (reduce_kernel (xpyHeavyQuarkResidualNorm_functor a b) fl fs M n st)"
    by (rule reduce_kernel_not_fatal)
       (simp add: xpyHeavyQuarkResidualNorm_functor_def xpyHeavyQuarkResidualNorm_post_Inr
          is_fatal_def)
qed

text \<open>
  C1: when \<^verbatim>\<open>x.Ncolor() != 3\<close>, \<^verbatim>\<open>HeavyQuarkResidualNorm(x, r)\<close> and
  \<^verbatim>\<open>xpyHeavyQuarkResidualNorm(x, y, r)\<close> return the triple \<open>{0, 0, 0}\<close> as an ordinary
  result, for all operands (compatible or not) and with the memory of every process
  untouched: the dispatcher is not entered.
\<close>

theorem heavy_quark_wrong_color_zero:
  assumes "Ncolor x \<noteq> 3"
  shows "HeavyQuarkResidualNorm x r W = Inr (make_double3 0 0 0, W)
       \<and> xpyHeavyQuarkResidualNorm x y r W = Inr (make_double3 0 0 0, W)"
  using assms by (simp add: HeavyQuarkResidualNorm_def xpyHeavyQuarkResidualNorm_def)

text \<open>The M-loop of one site.\<close>

lemma HeavyQuarkResidualNorm_site:
  "for_loop M (\<lambda>j. elem_step (HeavyQuarkResidualNorm_functor a b) (False, False, False, False, False)
                     (x, y, z, w, v) (base + j)) (aux, acc, st)
     = (make_double3 (x3 aux + (\<Sum>j<M. sqnorm (st (addr x) (base + j))))
                     (y3 aux + (\<Sum>j<M. sqnorm (st (addr y) (base + j)))) (z3 aux), acc, st)"
  by (induction M)
     (simp_all add: elem_step_def HeavyQuarkResidualNorm_functor_def HeavyQuarkResidualNorm_call_def
        load_def norm2_fn_sqnorm)

lemma xpyHeavyQuarkResidualNorm_site:
  "for_loop M (\<lambda>j. elem_step (xpyHeavyQuarkResidualNorm_functor a b) (False, False, False, False, False)
                     (x, y, z, w, v) (base + j)) (aux, acc, st)
     = (make_double3 (x3 aux + (\<Sum>j<M. sqnorm (st (addr x) (base + j) + st (addr y) (base + j))))
                     (y3 aux + (\<Sum>j<M. sqnorm (st (addr z) (base + j)))) (z3 aux), acc, st)"
  by (induction M)
     (simp_all add: elem_step_def xpyHeavyQuarkResidualNorm_functor_def
        xpyHeavyQuarkResidualNorm_call_def load_def norm2_fn_sqnorm)

lemma double3_add:
  "make_double3 (x3 acc + p) (y3 acc + q) (z3 acc + t) = acc + make_double3 p q t"
  by (simp add: plus_double3_def)

lemma HeavyQuarkResidualNorm_sites:
  "\<exists>aux'. for_loopE n (site_step (HeavyQuarkResidualNorm_functor a b)
                        (False, False, False, False, False) (x, y, z, w, v) M) (aux, acc, st)
     = Inr (aux', acc + heavy_quark_sum (\<lambda>k. sqnorm (st (addr x) k)) (\<lambda>k. sqnorm (st (addr y) k)) M n, st)"
proof (induction n)
  case 0
  then show ?case by (simp add: heavy_quark_sum_def)
next
  case (Suc n)
  then obtain aux' where IH: "for_loopE n (site_step (HeavyQuarkResidualNorm_functor a b)
                        (False, False, False, False, False) (x, y, z, w, v) M) (aux, acc, st)
     = Inr (aux', acc + heavy_quark_sum (\<lambda>k. sqnorm (st (addr x) k)) (\<lambda>k. sqnorm (st (addr y) k)) M n, st)"
    by blast
  have hooks: "pre (HeavyQuarkResidualNorm_functor a b) = HeavyQuarkResidualNorm_pre"
    "post (HeavyQuarkResidualNorm_functor a b) = HeavyQuarkResidualNorm_post"
    by (simp_all add: HeavyQuarkResidualNorm_functor_def)
  show ?case
    unfolding for_loopE.simps IH
    by (simp add: site_step_def hooks HeavyQuarkResidualNorm_site HeavyQuarkResidualNorm_pre_def
        HeavyQuarkResidualNorm_post_Inr double3_add heavy_quark_sum_def add.assoc)
qed


lemma xpyHeavyQuarkResidualNorm_sites:
  "\<exists>aux'. for_loopE n (site_step (xpyHeavyQuarkResidualNorm_functor a b)
                        (False, False, False, False, False) (x, y, z, w, v) M) (aux, acc, st)
     = Inr (aux', acc + heavy_quark_sum (\<lambda>k. sqnorm (st (addr x) k + st (addr y) k))
                          (\<lambda>k. sqnorm (st (addr z) k)) M n, st)"
proof (induction n)
  case 0
  then show ?case by (simp add: heavy_quark_sum_def)
next
  case (Suc n)
  then obtain aux' where IH: "for_loopE n (site_step (xpyHeavyQuarkResidualNorm_functor a b)
                        (False, False, False, False, False) (x, y, z, w, v) M) (aux, acc, st)
     = Inr (aux', acc + heavy_quark_sum (\<lambda>k. sqnorm (st (addr x) k + st (addr y) k))
                          (\<lambda>k. sqnorm (st (addr z) k)) M n, st)"
    by blast
  have hooks: "pre (xpyHeavyQuarkResidualNorm_functor a b) = xpyHeavyQuarkResidualNorm_pre"
    "post (xpyHeavyQuarkResidualNorm_functor a b) = xpyHeavyQuarkResidualNorm_post"
    by (simp_all add: xpyHeavyQuarkResidualNorm_functor_def)
  show ?case
    unfolding for_loopE.simps IH
    by (simp add: site_step_def hooks xpyHeavyQuarkResidualNorm_site xpyHeavyQuarkResidualNorm_pre_def
        xpyHeavyQuarkResidualNorm_post_Inr double3_add heavy_quark_sum_def add.assoc)
qed

lemma HeavyQuarkResidualNorm_kernel:
  "reduce_kernel (HeavyQuarkResidualNorm_functor a b) (False, False, False, False, False)
     (x, y, z, w, v) M n st
   = Inr (heavy_quark_sum (\<lambda>k. sqnorm (st (addr x) k)) (\<lambda>k. sqnorm (st (addr y) k)) M n, st)"
  using HeavyQuarkResidualNorm_sites [of n a b x y z w v M "member (HeavyQuarkResidualNorm_functor a b)" 0 st]
  by (auto simp add: reduce_kernel_def)

lemma xpyHeavyQuarkResidualNorm_kernel:
  "reduce_kernel (xpyHeavyQuarkResidualNorm_functor a b) (False, False, False, False, False)
     (x, y, z, w, v) M n st
   = Inr (heavy_quark_sum (\<lambda>k. sqnorm (st (addr x) k + st (addr y) k))
            (\<lambda>k. sqnorm (st (addr z) k)) M n, st)"
  using xpyHeavyQuarkResidualNorm_sites [of n a b x y z w v M "member (xpyHeavyQuarkResidualNorm_functor a b)" 0 st]
  by (auto simp add: reduce_kernel_def)

lemma reduceCuda_closed:
  assumes checks: "checkSpinor x y = Inr ()" "checkSpinor x z = Inr ()" "checkSpinor x w = Inr ()"
      "checkSpinor x v = Inr ()"
    and kernel: "\<And>st. reduce_kernel (R a b) fl (x, y, z, w, v) (site_elems siteUnroll x)
                         (num_sites siteUnroll x) st = Inr (val st, upd st)"
  shows "reduceCuda R fl siteUnroll a b x y z w v W
           = Inr (comm_allreduce (map val W), map upd W)"
proof -
  have "mapE (reduce_kernel (R a b) fl (x, y, z, w, v) (site_elems siteUnroll x)
                (num_sites siteUnroll x)) W
          = Inr (map (\<lambda>st. (val st, upd st)) W)"
    by (rule mapE_total) (rule kernel)
  then show ?thesis
    by (simp add: reduceCuda_def checks o_def)
qed

text \<open>
  C8: for both heavy-quark entry points the result of one process's kernel is the
  undivided triple of site sums; the dispatcher returns the sum of these triples over all
  processes, still undivided; and the entry point returns that combined triple with its
  third component divided by \<^verbatim>\<open>x.Volume() * comm_size()\<close>. The division is applied once,
  to the combined sum, after the local reduction and the combine.
\<close>

theorem heavy_quark_ratio_after_combine:
  assumes "Ncolor x = 3" and "checkSpinor x y = Inr ()" and "checkSpinor x r = Inr ()"
  shows "(\<forall>st. reduce_kernel (HeavyQuarkResidualNorm_functor (make_double2 0 0) (make_double2 0 0))
                 (False, False, False, False, False) (x, r, r, r, r)
                 (site_elems True x) (num_sites True x) st
               = Inr (heavy_quark_sum (\<lambda>k. sqnorm (st (addr x) k)) (\<lambda>k. sqnorm (st (addr r) k))
                        (site_elems True x) (num_sites True x), st))
       \<and> reduceCuda HeavyQuarkResidualNorm_functor (False, False, False, False, False) True
              (make_double2 0 0) (make_double2 0 0) x r r r r W
           = Inr (comm_allreduce
                    (map (\<lambda>st. heavy_quark_sum (\<lambda>k. sqnorm (st (addr x) k))
                                  (\<lambda>k. sqnorm (st (addr r) k))
                                  (site_elems True x) (num_sites True x)) W), W)
       \<and> HeavyQuarkResidualNorm x r W
           = Inr (let rtn = comm_allreduce
                        (map (\<lambda>st. heavy_quark_sum (\<lambda>k. sqnorm (st (addr x) k))
                                      (\<lambda>k. sqnorm (st (addr r) k))
                                      (site_elems True x) (num_sites True x)) W)
                  in make_double3 (x3 rtn) (y3 rtn) (z3 rtn / real (Volume x * comm_size W)), W)
       \<and> (\<forall>st. reduce_kernel (xpyHeavyQuarkResidualNorm_functor (make_double2 0 0) (make_double2 0 0))
                 (False, False, False, False, False) (x, y, r, r, r)
                 (site_elems True x) (num_sites True x) st
               = Inr (heavy_quark_sum (\<lambda>k. sqnorm (st (addr x) k + st (addr y) k))
                        (\<lambda>k. sqnorm (st (addr r) k))
                        (site_elems True x) (num_sites True x), st))
       \<and> reduceCuda xpyHeavyQuarkResidualNorm_functor (False, False, False, False, False) True
              (make_double2 0 0) (make_double2 0 0) x y r r r W
           = Inr (comm_allreduce
                    (map (\<lambda>st. heavy_quark_sum (\<lambda>k. sqnorm (st (addr x) k + st (addr y) k))
                                  (\<lambda>k. sqnorm (st (addr r) k))
                                  (site_elems True x) (num_sites True x)) W), W)
       \<and> xpyHeavyQuarkResidualNorm x y r W
           = Inr (let rtn = comm_allreduce
                        (map (\<lambda>st. heavy_quark_sum (\<lambda>k. sqnorm (st (addr x) k + st (addr y) k))
                                      (\<lambda>k. sqnorm (st (addr r) k))
                                      (site_elems True x) (num_sites True x)) W)
                  in make_double3 (x3 rtn) (y3 rtn) (z3 rtn / real (Volume x * comm_size W)), W)"
proof -
  have hq: "reduceCuda HeavyQuarkResidualNorm_functor (False, False, False, False, False) True
              (make_double2 0 0) (make_double2 0 0) x r r r r W
            = Inr (comm_allreduce
                     (map (\<lambda>st. heavy_quark_sum (\<lambda>k. sqnorm (st (addr x) k))
                                   (\<lambda>k. sqnorm (st (addr r) k))
                                   (site_elems True x) (num_sites True x)) W),
                   map (\<lambda>st. st) W)"
    by (rule reduceCuda_closed) (simp_all add: assms HeavyQuarkResidualNorm_kernel)
  have xpy: "reduceCuda xpyHeavyQuarkResidualNorm_functor (False, False, False, False, False) True
              (make_double2 0 0) (make_double2 0 0) x y r r r W
            = Inr (comm_allreduce
                     (map (\<lambda>st. heavy_quark_sum (\<lambda>k. sqnorm (st (addr x) k + st (addr y) k))
                                   (\<lambda>k. sqnorm (st (addr r) k))
                                   (site_elems True x) (num_sites True x)) W),
                   map (\<lambda>st. st) W)"
    by (rule reduceCuda_closed) (simp_all add: assms xpyHeavyQuarkResidualNorm_kernel)
  show ?thesis
    by (simp add: HeavyQuarkResidualNorm_def xpyHeavyQuarkResidualNorm_def assms hq xpy
        Let_def HeavyQuarkResidualNorm_kernel xpyHeavyQuarkResidualNorm_kernel)
qed

section \<open>The example run\<close>

text \<open>Sums over the first two, three and six indices, written out.\<close>

lemma sum_below_numeral:
  "(\<Sum>k<2. f k) = f 0 + f 1"
  "(\<Sum>k<3. f k) = f 0 + f 1 + f 2"
  "(\<Sum>k<6. f k) = f 0 + f 1 + f 2 + f 3 + f 4 + f (5::nat)"
  for f :: "nat \<Rightarrow> 'a::comm_monoid_add"
  by (simp_all add: eval_nat_numeral add.assoc)

lemma ex_fields:
  "checkSpinor ex_x ex_y = Inr ()" "checkSpinor ex_x ex_r = Inr ()" "checkSpinor ex_x ex_x = Inr ()"
  "Length ex_x = 12" "Length ex_y = 12" "Length ex_r = 12"
  "addr ex_x = 1" "addr ex_y = 2" "addr ex_r = 3"
  "Ncolor ex_x = 3" "Nspin ex_x = 1" "Volume ex_x = 2" "Ncolor ex_mg = 24"
  by (simp_all add: checkSpinor_def ex_x_def ex_y_def ex_r_def ex_mg_def)

lemma ex_norm1: "norm1 ex_x ex_W = Inr (21, ex_W)"
  by (simp add: norm1_closed ex_fields ex_W_def ex_st1_def ex_st2_def norm1_fn_def sum_below_numeral)

lemma ex_norm2:
  "norm2 ex_x ex_W = Inr (61, ex_W)" "norm2 ex_y ex_W = Inr (61, ex_W)"
  "norm2 ex_r ex_W = Inr (36, ex_W)"
  by (simp_all add: norm2_closed ex_fields ex_W_def ex_st1_def ex_st2_def sqnorm_def sum_below_numeral)

lemma ex_reDotProduct:
  "reDotProduct ex_x ex_y ex_W = Inr (30, ex_W)" "reDotProduct ex_y ex_r ex_W = Inr (12, ex_W)"
  by (simp_all add: reDotProduct_closed ex_fields checkSpinor_trans [of ex_x] ex_W_def ex_st1_def
      ex_st2_def redot_def sum_below_numeral)

lemma ex_cDotProduct: "cDotProduct ex_x ex_y ex_W = Inr (Complex 30 49, ex_W)"
  by (simp add: cDotProduct_closed ex_fields ex_W_def ex_st1_def ex_st2_def redot_def imdot_def
      sum_below_numeral)


theorem pure_reductions_write_nothing_witness:
  "norm1 ex_x ex_W = Inr (21, ex_W) \<and> norm2 ex_x ex_W = Inr (61, ex_W)
   \<and> reDotProduct ex_x ex_y ex_W = Inr (30, ex_W)
   \<and> cDotProduct ex_x ex_y ex_W = Inr (Complex 30 49, ex_W)"
  using pure_reductions_write_nothing [of ex_x ex_W ex_y]
  by (simp add: ex_norm1 ex_norm2 ex_reDotProduct ex_cDotProduct)

theorem quadrupleCGReduction_components_witness:
  "checkSpinor ex_x ex_y = Inr () \<and> checkSpinor ex_x ex_r = Inr () \<and> checkSpinor ex_x ex_x = Inr ()
   \<and> reduceCuda quadrupleCGReduction_functor (False, False, False, False, False) False
         (make_double2 0 0) (make_double2 0 0) ex_x ex_y ex_r ex_r ex_x ex_W
       = Inr (make_double4 61 61 12 36, ex_W)
   \<and> quadrupleCGReduction ex_x ex_y ex_r ex_W = Inr (make_double4 61 61 12 61, ex_W)"
proof -
  have compat: "checkSpinor ex_x ex_y = Inr ()" "checkSpinor ex_x ex_r = Inr ()"
    "checkSpinor ex_x ex_x = Inr ()"
    by (simp_all add: ex_fields)
  from quadrupleCGReduction_components [OF compat(1) compat(2) compat(2) compat(3), of ex_W]
  show ?thesis
    using compat by (auto simp add: ex_norm2 ex_reDotProduct)
qed


theorem axpbyzNorm_update_and_norm_witness:
  "checkSpinor ex_x ex_y = Inr () \<and> checkSpinor ex_x ex_r = Inr ()
   \<and> (\<exists>r. axpbyzNorm 2 ex_x 3 ex_y ex_r ex_W = Inr (r, map (axpbyz_store 2 ex_x 3 ex_y ex_r) ex_W)
          \<and> norm2 ex_r (map (axpbyz_store 2 ex_x 3 ex_y ex_r) ex_W)
              = Inr (r, map (axpbyz_store 2 ex_x 3 ex_y ex_r) ex_W))
   \<and> (1::nat) < Length ex_r div 2
   \<and> axpbyz_store 2 ex_x 3 ex_y ex_r ex_st1 (addr ex_r) 1 = make_double2 5 5
   \<and> addr ex_x \<noteq> addr ex_r
   \<and> axpbyz_store 2 ex_x 3 ex_y ex_r ex_st1 (addr ex_x) = ex_st1 (addr ex_x)"
proof -
  have compat: "checkSpinor ex_x ex_y = Inr ()" "checkSpinor ex_x ex_r = Inr ()"
    by (simp_all add: ex_fields)
  have side: "(1::nat) < Length ex_r div 2" "addr ex_x \<noteq> addr ex_r"
    by (simp_all add: ex_fields)
  have elem: "smul 2 (ex_st1 (addr ex_x) 1) + smul 3 (ex_st1 (addr ex_y) 1) = make_double2 5 5"
    by (simp add: ex_fields ex_st1_def smul_def plus_double2_def)
  from axpbyzNorm_update_and_norm [OF compat, of 2 3 ex_W] side elem compat
  show ?thesis
    by auto
qed

lemma ex_axpbyzNorm_aliased:
  "axpbyzNorm 2 ex_x 0 ex_y ex_x [ex_st1] = Inr (244, [axpbyz_store 2 ex_x 0 ex_y ex_x ex_st1])"
proof -
  have "(\<Sum>k<Length ex_x div 2.
           sqnorm (smul 2 (ex_st1 (addr ex_x) k) + smul 0 (ex_st1 (addr ex_y) k))) = 244"
    by (simp add: ex_fields ex_st1_def sqnorm_def smul_def plus_double2_def sum_below_numeral)
  then show ?thesis
    by (simp add: axpbyzNorm_closed [of ex_x ex_y ex_x 2 0] ex_fields)
qed

text \<open>
  C2 as stated fails when \<open>z\<close> is the field \<open>x\<close> itself: the operands are compatible, the
  call succeeds, and element 1 of \<open>x\<close> is \<open>(1, 1)\<close> before the call and \<open>(2, 2)\<close> after it, so
  \<open>x\<close> is not unchanged.
\<close>

theorem axpbyzNorm_aliased_changes_x:
  "checkSpinor ex_x ex_y = Inr () \<and> checkSpinor ex_x ex_x = Inr ()
   \<and> axpbyzNorm 2 ex_x 0 ex_y ex_x [ex_st1] = Inr (244, [axpbyz_store 2 ex_x 0 ex_y ex_x ex_st1])
   \<and> load ex_st1 ex_x 1 = make_double2 1 1
   \<and> load (axpbyz_store 2 ex_x 0 ex_y ex_x ex_st1) ex_x 1 = make_double2 2 2"
proof -
  have before: "load ex_st1 ex_x 1 = make_double2 1 1"
    by (simp add: load_def ex_fields ex_st1_def)
  have after: "load (axpbyz_store 2 ex_x 0 ex_y ex_x ex_st1) ex_x 1 = make_double2 2 2"
    by (simp add: load_def axpbyz_store_def ex_fields ex_st1_def smul_def plus_double2_def)
  from ex_axpbyzNorm_aliased before after show ?thesis
    by (simp add: ex_fields)
qed

lemma ex_mg_incompatible: "checkSpinor ex_mg ex_r = Inl (PrecisionsDoNotMatch QUDA_SINGLE_PRECISION QUDA_DOUBLE_PRECISION)"
  by (simp add: checkSpinor_def ex_mg_def ex_r_def)

theorem heavy_quark_wrong_color_zero_witness:
  "Ncolor ex_mg \<noteq> 3
   \<and> HeavyQuarkResidualNorm ex_mg ex_r ex_W = Inr (make_double3 0 0 0, ex_W)
   \<and> xpyHeavyQuarkResidualNorm ex_mg ex_y ex_r ex_W = Inr (make_double3 0 0 0, ex_W)
   \<and> is_fatal (reduceCuda HeavyQuarkResidualNorm_functor (False, False, False, False, False) True
                 (make_double2 0 0) (make_double2 0 0) ex_mg ex_r ex_r ex_r ex_r ex_W)"
proof -
  have color: "Ncolor ex_mg \<noteq> 3"
    by (simp add: ex_fields)
  have "is_fatal (reduceCuda HeavyQuarkResidualNorm_functor (False, False, False, False, False) True
                 (make_double2 0 0) (make_double2 0 0) ex_mg ex_r ex_r ex_r ex_r ex_W)"
    by (simp add: reduceCuda_def ex_mg_incompatible is_fatal_def)
  with color heavy_quark_wrong_color_zero [OF color, of ex_r ex_W ex_y] show ?thesis
    by simp
qed

lemma ex_sites: "site_elems True ex_x = 3" "num_sites True ex_x = 2"
  by (simp_all add: site_elems_def num_sites_def ex_fields)

lemma ex_heavy_quark_sum:
  "heavy_quark_sum (\<lambda>k. sqnorm (ex_st1 (addr ex_x) k)) (\<lambda>k. sqnorm (ex_st1 (addr ex_r) k)) 3 2
     = make_double3 61 24 (12 / 8 + 12 / 53)"
  "heavy_quark_sum (\<lambda>k. sqnorm (ex_st2 (addr ex_x) k)) (\<lambda>k. sqnorm (ex_st2 (addr ex_r) k)) 3 2
     = make_double3 0 12 2"
  "heavy_quark_sum (\<lambda>k. sqnorm (ex_st1 (addr ex_x) k + ex_st1 (addr ex_y) k))
       (\<lambda>k. sqnorm (ex_st1 (addr ex_r) k)) 3 2
     = make_double3 182 24 (12 / 28 + 12 / 154)"
  "heavy_quark_sum (\<lambda>k. sqnorm (ex_st2 (addr ex_x) k + ex_st2 (addr ex_y) k))
       (\<lambda>k. sqnorm (ex_st2 (addr ex_r) k)) 3 2
     = make_double3 0 12 2"
  by (simp_all add: heavy_quark_sum_def ex_fields ex_st1_def ex_st2_def sqnorm_def hq_ratio_def
      sum_below_numeral plus_double3_def plus_double2_def)

theorem heavy_quark_ratio_after_combine_witness:
  "Ncolor ex_x = 3 \<and> checkSpinor ex_x ex_y = Inr () \<and> checkSpinor ex_x ex_r = Inr ()
   \<and> reduceCuda HeavyQuarkResidualNorm_functor (False, False, False, False, False) True
          (make_double2 0 0) (make_double2 0 0) ex_x ex_r ex_r ex_r ex_r ex_W
       = Inr (make_double3 61 36 (12 / 8 + 12 / 53 + 2), ex_W)
   \<and> HeavyQuarkResidualNorm ex_x ex_r ex_W
       = Inr (make_double3 61 36 ((12 / 8 + 12 / 53 + 2) / 4), ex_W)
   \<and> reduceCuda xpyHeavyQuarkResidualNorm_functor (False, False, False, False, False) True
          (make_double2 0 0) (make_double2 0 0) ex_x ex_y ex_r ex_r ex_r ex_W
       = Inr (make_double3 182 36 (12 / 28 + 12 / 154 + 2), ex_W)
   \<and> xpyHeavyQuarkResidualNorm ex_x ex_y ex_r ex_W
       = Inr (make_double3 182 36 ((12 / 28 + 12 / 154 + 2) / 4), ex_W)"
proof -
  have hyps: "Ncolor ex_x = 3" "checkSpinor ex_x ex_y = Inr ()" "checkSpinor ex_x ex_r = Inr ()"
    by (simp_all add: ex_fields)
  have combined:
    "comm_allreduce (map (\<lambda>st. heavy_quark_sum (\<lambda>k. sqnorm (st (addr ex_x) k))
                              (\<lambda>k. sqnorm (st (addr ex_r) k)) 3 2) ex_W)
       = make_double3 61 36 (12 / 8 + 12 / 53 + 2)"
    "comm_allreduce (map (\<lambda>st. heavy_quark_sum (\<lambda>k. sqnorm (st (addr ex_x) k + st (addr ex_y) k))
                              (\<lambda>k. sqnorm (st (addr ex_r) k)) 3 2) ex_W)
       = make_double3 182 36 (12 / 28 + 12 / 154 + 2)"
    by (simp_all add: comm_allreduce_def ex_W_def ex_heavy_quark_sum plus_double3_def zero_double3_def)
  have procs: "Volume ex_x = 2" "comm_size ex_W = 2"
    by (simp_all add: ex_fields comm_size_def ex_W_def)
  from heavy_quark_ratio_after_combine [OF hyps, of ex_W] hyps show ?thesis
    by (simp add: ex_sites combined procs)
qed

end
